theory Spec2Isabelle
  imports Main "HOL-Library.Word" "HOL-Library.Monad_Syntax" "HOL-Library.Product_Lexorder"
begin

unbundle bit_operations_syntax

section \<open>The random number generator (include/fastrng.hpp)\<close>

text \<open>
  The class \<open>fastrng\<close> holds two 64-bit words. All arithmetic on \<open>uint64_t\<close> wraps
  modulo \<open>2 ^ 64\<close>, which is the arithmetic of \<open>64 word\<close>; \<open><<\<close> is \<open>push_bit\<close>
  and \<open>>>\<close> on an unsigned value is \<open>drop_bit\<close>.
\<close>

record fastrng =
  S0 :: "64 word"
  S1 :: "64 word"

text \<open>
  \<open>splitmix64\<close> takes its argument by reference and advances it: the model returns
  the result together with the new value of \<open>x\<close>.
\<close>

definition splitmix64 :: "64 word \<Rightarrow> 64 word \<times> 64 word" where
  "splitmix64 x =
     (let x' = x + 0x9E3779B97F4A7C15;
          z = x';
          z = (z XOR drop_bit 30 z) * 0xBF58476D1CE4E5B9;
          z = (z XOR drop_bit 27 z) * 0x94D049BB133111EB
      in (z XOR drop_bit 31 z, x'))"

text \<open>
  \<open>operator()\<close>: one step of the generator, returning the output and the new state.
\<close>

definition rng_next :: "fastrng \<Rightarrow> 64 word \<times> fastrng" where
  "rng_next g =
     (let x = S0 g;
          y = S1 g;
          g = g\<lparr>S0 := y\<rparr>;
          x = x XOR push_bit 23 x;
          g = g\<lparr>S1 := x XOR y XOR drop_bit 17 x XOR drop_bit 26 y\<rparr>
      in (S1 g + y, g))"

text \<open>
  \<open>discard(int n)\<close>: the loop \<open>while (n-- > 0)\<close> with the body of \<open>operator()\<close>
  written out a second time, without the output. The counter is a C \<open>int\<close>; the
  post-decrement also runs on the last, failing test, so that \<open>n = INT_MIN\<close> is a signed
  overflow (undefined behaviour, \<open>None\<close>).
\<close>

definition INT_MAX :: int where
  "INT_MAX = 2147483647"

definition INT_MIN :: int where
  "INT_MIN = - 2147483648"

function discard_loop :: "int \<Rightarrow> fastrng \<Rightarrow> fastrng" where
  "discard_loop n g =
     (if n > 0 then
        (let x = S0 g;
             y = S1 g;
             g = g\<lparr>S0 := y\<rparr>;
             x = x XOR push_bit 23 x;
             g = g\<lparr>S1 := x XOR y XOR drop_bit 17 x XOR drop_bit 26 y\<rparr>
         in discard_loop (n - 1) g)
      else g)"
  by pat_completeness auto
termination
  by (relation "measure (\<lambda>(n, g). nat n)") auto

declare discard_loop.simps [simp del]

definition discard :: "int \<Rightarrow> fastrng \<Rightarrow> fastrng option" where
  "discard n g = (if n = INT_MIN then None else Some (discard_loop n g))"

text \<open>
  \<open>seed(uint64_t x)\<close> assigns both words from two successive \<open>splitmix64\<close> draws on
  the one variable \<open>x\<close>, then discards 1024 outputs. The generator it is called on
  may be fresh from the constructor \<open>fastrng() {}\<close>, which initialises nothing: the
  model takes the previous contents \<open>g\<close> of the object as an argument.
\<close>

definition seed :: "64 word \<Rightarrow> fastrng \<Rightarrow> fastrng option" where
  "seed x g =
     (let (a, x) = splitmix64 x;
          g = g\<lparr>S0 := a\<rparr>;
          (b, x) = splitmix64 x;
          g = g\<lparr>S1 := b\<rparr>
      in discard 1024 g)"

text \<open>The first \<open>n\<close> outputs of repeated calls of \<open>operator()\<close>, and the state after them.\<close>

fun generate :: "nat \<Rightarrow> fastrng \<Rightarrow> 64 word list \<times> fastrng" where
  "generate 0 g = ([], g)"
| "generate (Suc n) g =
     (let (r, g') = rng_next g; (rs, g'') = generate n g' in (r # rs, g''))"

text \<open>
  The stream a generator produces once \<open>seed(x)\<close> has been called on it: its first
  \<open>n\<close> outputs, for an object whose words held \<open>g\<close> before the call.
\<close>

definition seeded_stream :: "64 word \<Rightarrow> fastrng \<Rightarrow> nat \<Rightarrow> 64 word list option" where
  "seeded_stream x g n = map_option (\<lambda>s. fst (generate n s)) (seed x g)"

section \<open>The pairing heap (namespace pairing_queue)\<close>

text \<open>
  The queue is a fixed array of nodes, one per key, linked by raw \<open>N *\<close> pointers
  into that array. A pointer is modelled by \<open>nat option\<close>: \<open>None\<close> is \<open>nullptr\<close>
  and \<open>Some i\<close> is \<open>nodes.data() + i\<close>; the source's \<open>key(n)\<close>, which is
  \<open>n - nodes.data()\<close>, is then \<open>i\<close>, and \<open>this < &b\<close> compares indices. The field
  \<open>next\<close> is written \<open>nxt\<close>.

  The priority type \<open>P\<close> is a template parameter; the queue only copies and compares
  priorities, so any linear order models it. The macro \<open>max_P\<close>
  (\<open>numeric_limits<P>::max()\<close>) is passed as an argument where the code uses it, and the
  value-initialised \<open>P()\<close> of a fresh node is \<open>0\<close>.

  \<open>time_node\<close> extends \<open>plain_node\<close> by the generation stamp \<open>time\<close>, and
  \<open>pairing_queue_fast_reset\<close> extends \<open>pairing_queue\<close> by the counter \<open>now\<close>; the
  base-class methods are written once, over the record schemes, as the template is.
\<close>

record 'p plain_node =
  val :: 'p
  nxt :: "nat option"
  desc :: "nat option"
  prev :: "nat option"

record 'p time_node = "'p plain_node" +
  time :: int

type_synonym ptr = "nat option"

record ('p, 'm) pairing_queue =
  nodes :: "('p, 'm) plain_node_scheme list"
  root :: ptr

record ('p, 'm) pairing_queue_fast_reset = "('p, 'm) pairing_queue" +
  now :: int

text \<open>
  Every operation returns an \<open>option\<close>: \<open>None\<close> stands for undefined behaviour of
  the C++ (a read or write through \<open>nullptr\<close> or outside the array), after which
  nothing is known about the queue. \<open>load\<close> and \<open>store\<close> are the two
  memory accesses, \<open>n->f\<close> and \<open>n->f = v\<close>.

  \<open>minorminer_assert\<close> is a macro of \<open>debug.hpp\<close>, which is not part of the sources
  at hand. What it expands to is a parameter \<open>dbg\<close> of every function below: in a
  debugging build (\<open>dbg\<close> true) a failed assertion stops the program, so that the call
  has no result; otherwise the macro expands to nothing and the condition is not looked
  at. The package documentation describes the second as the default.
\<close>

definition minorminer_assert :: "bool \<Rightarrow> bool \<Rightarrow> unit option" where
  "minorminer_assert dbg c = (if dbg \<and> \<not> c then None else Some ())"

definition load :: "ptr \<Rightarrow> ('p, 'm, 'q) pairing_queue_scheme \<Rightarrow> ('p, 'm) plain_node_scheme option" where
  "load p q = (case p of None \<Rightarrow> None
               | Some i \<Rightarrow> if i < length (nodes q) then Some (nodes q ! i) else None)"

definition store :: "ptr \<Rightarrow> (('p, 'm) plain_node_scheme \<Rightarrow> ('p, 'm) plain_node_scheme) \<Rightarrow>
    ('p, 'm, 'q) pairing_queue_scheme \<Rightarrow> ('p, 'm, 'q) pairing_queue_scheme option" where
  "store p f q = (case p of None \<Rightarrow> None
               | Some i \<Rightarrow> if i < length (nodes q) then Some (q\<lparr>nodes := (nodes q)[i := f (nodes q ! i)]\<rparr>) else None)"

text \<open>\<open>empty(N *n)\<close>: the null test.\<close>

definition empty_ptr :: "ptr \<Rightarrow> bool" where
  "empty_ptr n = (n = None)"

text \<open>
  \<open>operator<\<close> of both node types: by value, ties broken by the address of the node.
\<close>

fun ptr_less :: "ptr \<Rightarrow> ptr \<Rightarrow> bool" where
  "ptr_less (Some i) (Some j) = (i < j)"
| "ptr_less None (Some j) = True"
| "ptr_less _ None = False"

definition node_less :: "ptr \<Rightarrow> ptr \<Rightarrow> ('p::linorder, 'm, 'q) pairing_queue_scheme \<Rightarrow> bool option" where
  "node_less a b q = do {
     na \<leftarrow> load a q;
     nb \<leftarrow> load b q;
     Some (val na < val nb \<or> (val na = val nb \<and> ptr_less a b)) }"

text \<open>
  \<open>merge_roots_unchecked(a, b)\<close> makes \<open>b\<close> the first child of \<open>a\<close>. The stores
  are kept in the order of the source, so that the aliased call with \<open>a == b\<close> is
  modelled as it runs.
\<close>

definition merge_roots_unchecked :: "bool \<Rightarrow> ptr \<Rightarrow> ptr \<Rightarrow> ('p, 'm, 'q) pairing_queue_scheme \<Rightarrow>
    (ptr \<times> ('p, 'm, 'q) pairing_queue_scheme) option" where
  "merge_roots_unchecked dbg a b q = do {
     minorminer_assert dbg (\<not> empty_ptr a);
     minorminer_assert dbg (\<not> empty_ptr b);
     na \<leftarrow> load a q;
     q \<leftarrow> store b (\<lambda>n. n\<lparr>nxt := desc na\<rparr>) q;
     let c = desc na;
     q \<leftarrow> (if c \<noteq> None then store c (\<lambda>n. n\<lparr>prev := b\<rparr>) q else Some q);
     q \<leftarrow> store b (\<lambda>n. n\<lparr>prev := a\<rparr>) q;
     q \<leftarrow> store a (\<lambda>n. n\<lparr>desc := b\<rparr>) q;
     Some (a, q) }"

definition merge_roots_unsafe :: "bool \<Rightarrow> ptr \<Rightarrow> ptr \<Rightarrow> ('p::linorder, 'm, 'q) pairing_queue_scheme \<Rightarrow>
    (ptr \<times> ('p, 'm, 'q) pairing_queue_scheme) option" where
  "merge_roots_unsafe dbg a b q = do {
     minorminer_assert dbg (\<not> empty_ptr a);
     minorminer_assert dbg (\<not> empty_ptr b);
     lt \<leftarrow> node_less a b q;
     if lt then merge_roots_unchecked dbg a b q else merge_roots_unchecked dbg b a q }"

text \<open>
  \<open>merge_pairs\<close> has two loops. The first (a \<open>do \<dots> while\<close> with a \<open>break\<close>)
  walks the sibling list, merges it pairwise and chains the results backwards through
  \<open>prev\<close>; the second folds that chain into one tree. On a cyclic list neither need
  terminate, so both are partial functions: no result is \<open>None\<close>.
\<close>

partial_function (option) merge_pairs_first :: "bool \<Rightarrow> ptr \<Rightarrow> ptr \<Rightarrow> ('p::linorder, 'm, 'q) pairing_queue_scheme \<Rightarrow>
    (ptr \<times> ('p, 'm, 'q) pairing_queue_scheme) option" where
  "merge_pairs_first dbg a r q = do {
     na \<leftarrow> load a q;
     let b = nxt na;
     if b \<noteq> None then do {
       nb \<leftarrow> load b q;
       let c = nxt nb;
       (b, q) \<leftarrow> merge_roots_unsafe dbg a b q;
       q \<leftarrow> store b (\<lambda>n. n\<lparr>prev := r\<rparr>) q;
       let r = b;
       let a = c;
       if a \<noteq> None then merge_pairs_first dbg a r q else Some (r, q)
     } else do {
       q \<leftarrow> store a (\<lambda>n. n\<lparr>prev := r\<rparr>) q;
       let r = a;
       Some (r, q)
     } }"

partial_function (option) merge_pairs_second :: "bool \<Rightarrow> ptr \<Rightarrow> ptr \<Rightarrow> ('p::linorder, 'm, 'q) pairing_queue_scheme \<Rightarrow>
    (ptr \<times> ('p, 'm, 'q) pairing_queue_scheme) option" where
  "merge_pairs_second dbg a r q =
     (if r \<noteq> None then do {
        nr \<leftarrow> load r q;
        let t = prev nr;
        (a, q) \<leftarrow> merge_roots_unsafe dbg a r q;
        let r = t;
        merge_pairs_second dbg a r q
      } else Some (a, q))"

declare merge_pairs_first.simps [code]
declare merge_pairs_second.simps [code]

definition merge_pairs :: "bool \<Rightarrow> ptr \<Rightarrow> ('p::linorder, 'm, 'q) pairing_queue_scheme \<Rightarrow>
    (ptr \<times> ('p, 'm, 'q) pairing_queue_scheme) option" where
  "merge_pairs dbg a q =
     (if a = None then Some (None, q)
      else do {
        let r = None;
        (r, q) \<leftarrow> merge_pairs_first dbg a r q;
        let a = r;
        na \<leftarrow> load a q;
        let r = prev na;
        merge_pairs_second dbg a r q })"

text \<open>
  \<open>node(k)\<close> and \<open>const_node(k)\<close> are \<open>nodes.data() + k\<close>, after a bound check
  that is only an assertion. A key outside the array gives a pointer that must not be
  used: forming it is the failure of the model.
\<close>

definition has :: "int \<Rightarrow> ('p, 'm, 'q) pairing_queue_scheme \<Rightarrow> bool" where
  "has k q = (0 \<le> k \<and> k < int (length (nodes q)))"

definition checkbound :: "bool \<Rightarrow> int \<Rightarrow> ('p, 'm, 'q) pairing_queue_scheme \<Rightarrow> unit option" where
  "checkbound dbg k q = minorminer_assert dbg (has k q)"

definition node :: "bool \<Rightarrow> int \<Rightarrow> ('p, 'm, 'q) pairing_queue_scheme \<Rightarrow> ptr option" where
  "node dbg k q = do {
     checkbound dbg k q;
     if has k q then Some (Some (nat k)) else None }"

definition key :: "ptr \<Rightarrow> ('p, 'm, 'q) pairing_queue_scheme \<Rightarrow> int option" where
  "key n q = (case n of None \<Rightarrow> None | Some i \<Rightarrow> Some (int i))"

definition empty_queue :: "('p, 'm, 'q) pairing_queue_scheme \<Rightarrow> bool" where
  "empty_queue q = empty_ptr (root q)"

text \<open>
  \<open>reset(N *n)\<close> takes a node out of the queue, \<open>prev == n\<close> being the mark of a node
  that is not in the queue; \<open>reset(N *n, P v)\<close> also sets its value; \<open>reset_fill\<close>
  does so for every node of the array; \<open>reset()\<close> is \<open>reset_fill(max_P)\<close>.
\<close>

definition reset_node :: "bool \<Rightarrow> ptr \<Rightarrow> ('p, 'm, 'q) pairing_queue_scheme \<Rightarrow> ('p, 'm, 'q) pairing_queue_scheme option" where
  "reset_node dbg n q = do {
     minorminer_assert dbg (\<not> empty_ptr n);
     q \<leftarrow> store n (\<lambda>x. x\<lparr>desc := None\<rparr>) q;
     q \<leftarrow> store n (\<lambda>x. x\<lparr>nxt := None\<rparr>) q;
     store n (\<lambda>x. x\<lparr>prev := n\<rparr>) q }"

definition reset_node_val :: "bool \<Rightarrow> ptr \<Rightarrow> 'p \<Rightarrow> ('p, 'm, 'q) pairing_queue_scheme \<Rightarrow> ('p, 'm, 'q) pairing_queue_scheme option" where
  "reset_node_val dbg n v q = do {
     q \<leftarrow> reset_node dbg n q;
     store n (\<lambda>x. x\<lparr>val := v\<rparr>) q }"

fun reset_each :: "bool \<Rightarrow> nat list \<Rightarrow> 'p \<Rightarrow> ('p, 'm, 'q) pairing_queue_scheme \<Rightarrow> ('p, 'm, 'q) pairing_queue_scheme option" where
  "reset_each dbg [] v q = Some q"
| "reset_each dbg (i # is) v q =
     do { q \<leftarrow> reset_node_val dbg (Some i) v q; reset_each dbg is v q }"

definition reset_fill :: "bool \<Rightarrow> 'p \<Rightarrow> ('p, 'm, 'q) pairing_queue_scheme \<Rightarrow> ('p, 'm, 'q) pairing_queue_scheme option" where
  "reset_fill dbg v q = reset_each dbg [0 ..< length (nodes q)] v (q\<lparr>root := None\<rparr>)"

definition reset :: "bool \<Rightarrow> 'p \<Rightarrow> ('p, 'm, 'q) pairing_queue_scheme \<Rightarrow> ('p, 'm, 'q) pairing_queue_scheme option" where
  "reset dbg max_P q = reset_fill dbg max_P q"

text \<open>
  \<open>delete_min\<close> and \<open>pop_min\<close>. The two reference arguments of \<open>pop_min\<close> are
  passed in with the contents they have before the call and returned with the contents
  they have after it.
\<close>

definition delete_min :: "bool \<Rightarrow> ('p::linorder, 'm, 'q) pairing_queue_scheme \<Rightarrow>
    (bool \<times> ('p, 'm, 'q) pairing_queue_scheme) option" where
  "delete_min dbg q =
     (if empty_queue q then Some (False, q)
      else do {
        nr \<leftarrow> load (root q) q;
        let newroot = desc nr;
        (newroot, q) \<leftarrow>
          (if \<not> empty_ptr newroot then do {
             (newroot, q) \<leftarrow> merge_pairs dbg newroot q;
             q \<leftarrow> store newroot (\<lambda>x. x\<lparr>prev := None\<rparr>) q;
             q \<leftarrow> store newroot (\<lambda>x. x\<lparr>nxt := None\<rparr>) q;
             Some (newroot, q) }
           else Some (newroot, q));
        q \<leftarrow> reset_node dbg (root q) q;
        Some (True, q\<lparr>root := newroot\<rparr>) })"

definition min_value :: "bool \<Rightarrow> ('p, 'm, 'q) pairing_queue_scheme \<Rightarrow> 'p option" where
  "min_value dbg q = do {
     minorminer_assert dbg (\<not> empty_queue q);
     nr \<leftarrow> load (root q) q;
     Some (val nr) }"

definition min_key :: "bool \<Rightarrow> ('p, 'm, 'q) pairing_queue_scheme \<Rightarrow> int option" where
  "min_key dbg q = do {
     minorminer_assert dbg (\<not> empty_queue q);
     key (root q) q }"

definition pop_min :: "bool \<Rightarrow> int \<Rightarrow> 'p \<Rightarrow> ('p::linorder, 'm, 'q) pairing_queue_scheme \<Rightarrow>
    (bool \<times> int \<times> 'p \<times> ('p, 'm, 'q) pairing_queue_scheme) option" where
  "pop_min dbg key_arg value_arg q =
     (if empty_queue q then Some (False, key_arg, value_arg, q)
      else do {
        key_arg \<leftarrow> min_key dbg q;
        value_arg \<leftarrow> min_value dbg q;
        (_, q) \<leftarrow> delete_min dbg q;
        Some (True, key_arg, value_arg, q) })"

definition merge_roots :: "bool \<Rightarrow> ptr \<Rightarrow> ptr \<Rightarrow> ('p::linorder, 'm, 'q) pairing_queue_scheme \<Rightarrow>
    (ptr \<times> ('p, 'm, 'q) pairing_queue_scheme) option" where
  "merge_roots dbg a b q = do {
     minorminer_assert dbg (\<not> empty_ptr a);
     if empty_ptr b then Some (a, q)
     else do {
       (c, q) \<leftarrow> merge_roots_unsafe dbg a b q;
       q \<leftarrow> store c (\<lambda>x. x\<lparr>prev := None\<rparr>) q;
       Some (c, q) } }"

definition remove_node :: "bool \<Rightarrow> ptr \<Rightarrow> ('p, 'm, 'q) pairing_queue_scheme \<Rightarrow> ('p, 'm, 'q) pairing_queue_scheme option" where
  "remove_node dbg a q = do {
     minorminer_assert dbg (\<not> empty_ptr a);
     na \<leftarrow> load a q;
     let b = prev na;
     let c = nxt na;
     minorminer_assert dbg (\<not> empty_ptr b);
     nb \<leftarrow> load b q;
     q \<leftarrow> (if desc nb = a then store b (\<lambda>x. x\<lparr>desc := c\<rparr>) q
           else store b (\<lambda>x. x\<lparr>nxt := c\<rparr>) q);
     if \<not> empty_ptr c then do {
       q \<leftarrow> store c (\<lambda>x. x\<lparr>prev := b\<rparr>) q;
       store a (\<lambda>x. x\<lparr>nxt := None\<rparr>) q }
     else Some q }"

definition decrease :: "bool \<Rightarrow> ptr \<Rightarrow> ('p::linorder, 'm, 'q) pairing_queue_scheme \<Rightarrow> ('p, 'm, 'q) pairing_queue_scheme option" where
  "decrease dbg a q = do {
     minorminer_assert dbg (\<not> empty_ptr a);
     na \<leftarrow> load a q;
     if \<not> empty_ptr (prev na) then do {
       minorminer_assert dbg (a \<noteq> root q);
       q \<leftarrow> remove_node dbg a q;
       (r, q) \<leftarrow> merge_roots dbg a (root q) q;
       Some (q\<lparr>root := r\<rparr>) }
     else Some q }"

text \<open>
  The public methods take a key; each has a protected overload on a node pointer, here
  with the suffix \<open>_node\<close>.
\<close>

definition decrease_value_node :: "bool \<Rightarrow> ptr \<Rightarrow> 'p \<Rightarrow> ('p::linorder, 'm, 'q) pairing_queue_scheme \<Rightarrow> ('p, 'm, 'q) pairing_queue_scheme option" where
  "decrease_value_node dbg n v q = do {
     minorminer_assert dbg (\<not> empty_ptr n);
     x \<leftarrow> load n q;
     minorminer_assert dbg (v < val x);
     q \<leftarrow> store n (\<lambda>x. x\<lparr>val := v\<rparr>) q;
     decrease dbg n q }"

definition decrease_value :: "bool \<Rightarrow> int \<Rightarrow> 'p \<Rightarrow> ('p::linorder, 'm, 'q) pairing_queue_scheme \<Rightarrow> ('p, 'm, 'q) pairing_queue_scheme option" where
  "decrease_value dbg k v q = do { n \<leftarrow> node dbg k q; decrease_value_node dbg n v q }"

definition check_decrease_value_node :: "bool \<Rightarrow> ptr \<Rightarrow> 'p \<Rightarrow> ('p::linorder, 'm, 'q) pairing_queue_scheme \<Rightarrow>
    (bool \<times> ('p, 'm, 'q) pairing_queue_scheme) option" where
  "check_decrease_value_node dbg n v q = do {
     minorminer_assert dbg (\<not> empty_ptr n);
     x \<leftarrow> load n q;
     if v < val x then do {
       q \<leftarrow> store n (\<lambda>x. x\<lparr>val := v\<rparr>) q;
       q \<leftarrow> decrease dbg n q;
       Some (True, q) }
     else Some (False, q) }"

definition check_decrease_value :: "bool \<Rightarrow> int \<Rightarrow> 'p \<Rightarrow> ('p::linorder, 'm, 'q) pairing_queue_scheme \<Rightarrow>
    (bool \<times> ('p, 'm, 'q) pairing_queue_scheme) option" where
  "check_decrease_value dbg k v q =
     do { n \<leftarrow> node dbg k q; check_decrease_value_node dbg n v q }"

definition set_value_node :: "bool \<Rightarrow> ptr \<Rightarrow> 'p \<Rightarrow> ('p::linorder, 'm, 'q) pairing_queue_scheme \<Rightarrow> ('p, 'm, 'q) pairing_queue_scheme option" where
  "set_value_node dbg n v q = do {
     minorminer_assert dbg (\<not> empty_ptr n);
     x \<leftarrow> load n q;
     if prev x = n then do {
       q \<leftarrow> store n (\<lambda>x. x\<lparr>val := v\<rparr>) q;
       (r, q) \<leftarrow> merge_roots dbg n (root q) q;
       Some (q\<lparr>root := r\<rparr>) }
     else if v < val x then do {
       q \<leftarrow> store n (\<lambda>x. x\<lparr>val := v\<rparr>) q;
       decrease dbg n q }
     else if val x < v then do {
       q \<leftarrow> store n (\<lambda>x. x\<lparr>val := v\<rparr>) q;
       q \<leftarrow> remove_node dbg n q;
       (r, q) \<leftarrow> merge_roots dbg n (root q) q;
       Some (q\<lparr>root := r\<rparr>) }
     else Some q }"

definition set_value :: "bool \<Rightarrow> int \<Rightarrow> 'p \<Rightarrow> ('p::linorder, 'm, 'q) pairing_queue_scheme \<Rightarrow> ('p, 'm, 'q) pairing_queue_scheme option" where
  "set_value dbg k v q = do { n \<leftarrow> node dbg k q; set_value_node dbg n v q }"

definition set_value_unsafe_node :: "bool \<Rightarrow> ptr \<Rightarrow> 'p \<Rightarrow> ('p, 'm, 'q) pairing_queue_scheme \<Rightarrow> ('p, 'm, 'q) pairing_queue_scheme option" where
  "set_value_unsafe_node dbg n v q = do {
     minorminer_assert dbg (\<not> empty_ptr n);
     store n (\<lambda>x. x\<lparr>val := v\<rparr>) q }"

definition set_value_unsafe :: "bool \<Rightarrow> int \<Rightarrow> 'p \<Rightarrow> ('p, 'm, 'q) pairing_queue_scheme \<Rightarrow> ('p, 'm, 'q) pairing_queue_scheme option" where
  "set_value_unsafe dbg k v q =
     do { n \<leftarrow> node dbg k q; set_value_unsafe_node dbg n v q }"

definition value_of :: "bool \<Rightarrow> int \<Rightarrow> ('p, 'm, 'q) pairing_queue_scheme \<Rightarrow> 'p option" where
  "value_of dbg k q = do { n \<leftarrow> node dbg k q; x \<leftarrow> load n q; Some (val x) }"

text \<open>
  The constructors: \<open>nodes(n)\<close> value-initialises \<open>n\<close> nodes (all fields zero, all
  pointers null) and \<open>root\<close> is null. A negative \<open>n\<close> does not yield a queue.
\<close>

definition pairing_queue_init :: "int \<Rightarrow> ('p::zero, unit) pairing_queue option" where
  "pairing_queue_init n =
     (if n < 0 then None
      else Some \<lparr>nodes = replicate (nat n) \<lparr>val = 0, nxt = None, desc = None, prev = None\<rparr>,
                 root = None\<rparr>)"

type_synonym 'p fast_queue = "('p, unit time_node_ext) pairing_queue_fast_reset"

definition pairing_queue_fast_reset_init :: "int \<Rightarrow> ('p::zero) fast_queue option" where
  "pairing_queue_fast_reset_init n =
     (if n < 0 then None
      else Some \<lparr>nodes = replicate (nat n)
                   \<lparr>val = 0, nxt = None, desc = None, prev = None, time = 0\<rparr>,
                 root = None, now = 0\<rparr>)"

text \<open>
  The methods of \<open>pairing_queue_fast_reset\<close>, with the prefix \<open>fr_\<close> where they hide
  a method of the base class. \<open>delete_min\<close>, \<open>pop_min\<close>, \<open>min_value\<close>,
  \<open>min_key\<close>, \<open>empty\<close>, \<open>decrease_value\<close> and \<open>reset_fill\<close> are inherited;
  inside them \<open>reset(root)\<close> is the base-class \<open>reset\<close>, which leaves \<open>time\<close> alone.

  \<open>now\<close> is a C \<open>int\<close>. \<open>now++\<close> is the increment of the compiled code, in two's
  complement: at \<open>INT_MAX\<close> it gives \<open>INT_MIN\<close> (the language standard leaves this
  overflow undefined). \<open>int_wrap\<close> brings an integer into the range of \<open>int\<close>.
\<close>

definition int_wrap :: "int \<Rightarrow> int" where
  "int_wrap i = (i + 2147483648) mod 4294967296 - 2147483648"

definition fr_reset_node :: "bool \<Rightarrow> ptr \<Rightarrow> 'p fast_queue \<Rightarrow> 'p fast_queue option" where
  "fr_reset_node dbg n q = do {
     q \<leftarrow> reset_node dbg n q;
     store n (\<lambda>x. x\<lparr>time := now q\<rparr>) q }"

definition current :: "bool \<Rightarrow> ptr \<Rightarrow> 'p fast_queue \<Rightarrow> (bool \<times> 'p fast_queue) option" where
  "current dbg n q = do {
     x \<leftarrow> load n q;
     if time x \<noteq> now q then do {
       q \<leftarrow> fr_reset_node dbg n q;
       Some (False, q) }
     else Some (True, q) }"

definition fr_reset :: "'p fast_queue \<Rightarrow> 'p fast_queue" where
  "fr_reset q =
     (let q = q\<lparr>root := None\<rparr>;
          old = now q;
          q = q\<lparr>now := int_wrap (old + 1)\<rparr>
      in if old = 0 then q\<lparr>nodes := map (\<lambda>x. x\<lparr>time := 0\<rparr>) (nodes q)\<rparr> else q)"

definition fr_set_value_unsafe :: "bool \<Rightarrow> int \<Rightarrow> 'p \<Rightarrow> 'p fast_queue \<Rightarrow> 'p fast_queue option" where
  "fr_set_value_unsafe dbg k v q = do {
     n \<leftarrow> node dbg k q;
     (_, q) \<leftarrow> current dbg n q;
     set_value_unsafe_node dbg n v q }"

definition fr_set_value :: "bool \<Rightarrow> int \<Rightarrow> 'p \<Rightarrow> ('p::linorder) fast_queue \<Rightarrow> 'p fast_queue option" where
  "fr_set_value dbg k v q = do {
     n \<leftarrow> node dbg k q;
     (cur, q) \<leftarrow> current dbg n q;
     if cur then set_value_node dbg n v q
     else do {
       q \<leftarrow> store n (\<lambda>x. x\<lparr>val := v\<rparr>) q;
       (r, q) \<leftarrow> merge_roots dbg n (root q) q;
       Some (q\<lparr>root := r\<rparr>) } }"

definition fr_check_decrease_value :: "bool \<Rightarrow> int \<Rightarrow> 'p \<Rightarrow> ('p::linorder) fast_queue \<Rightarrow>
    (bool \<times> 'p fast_queue) option" where
  "fr_check_decrease_value dbg k v q = do {
     n \<leftarrow> node dbg k q;
     (cur, q) \<leftarrow> current dbg n q;
     if cur then check_decrease_value_node dbg n v q
     else do {
       q \<leftarrow> set_value_node dbg n v q;
       Some (True, q) } }"

definition get_value :: "bool \<Rightarrow> 'p \<Rightarrow> int \<Rightarrow> 'p fast_queue \<Rightarrow> 'p option" where
  "get_value dbg max_P k q = do {
     n \<leftarrow> node dbg k q;
     x \<leftarrow> load n q;
     if time x = now q then Some (val x) else Some max_P }"

section \<open>The Python front end (python/minorminer.pyx)\<close>

text \<open>
  Node labels are arbitrary hashable Python values; the model has strings, integers and
  tuples of labels, the last being the shape of the pin label that \<open>suspend_chains\<close>
  builds. Exceptions are values of \<open>error\<close>, and a function that may raise returns
  \<open>error + 'a\<close>.
\<close>

datatype label = LStr string | LInt int | LTuple "label list"

datatype error = ValueError string | RuntimeError string | TypeError | OverflowError | IndexError

definition ebind :: "error + 'a \<Rightarrow> ('a \<Rightarrow> error + 'b) \<Rightarrow> error + 'b" where
  "ebind m f = (case m of Inl e \<Rightarrow> Inl e | Inr x \<Rightarrow> f x)"

text \<open>
  \<open>**params\<close> is a dictionary from option names to values, kept as an association
  list in the order of iteration. The values are typed by what the docstring asks for: a
  Python integer for the numeric options (\<open>float()\<close> of an integer is represented by
  that integer), a dictionary of chains for \<open>fixed_chains\<close>, \<open>initial_chains\<close> and
  \<open>restrict_chains\<close>, a dictionary of lists of blobs for \<open>suspend_chains\<close>. A value of
  the wrong kind for its option raises; the model calls that \<open>TypeError\<close> throughout.
\<close>

datatype pval =
    PInt int
  | PChains "(label \<times> label list) list"
  | PBlobs "(label \<times> label list list) list"

type_synonym params = "(string \<times> pval) list"

type_synonym chainmap = "(int \<times> int list) list"

text \<open>
  Modelled from the spec: \<open>optional_parameters\<close>, the options object of the C++ core,
  whose declaration is not part of the sources at hand. It is used here only as a
  container: the record has one field for each option of the spec's table that the
  parser assigns, and the three chain maps. A \<open>chainmap\<close> is a \<open>std::map\<close> from source
  ids to lists of target ids, whose \<open>insert\<close> leaves an existing key alone.
\<close>

record optional_parameters =
  max_no_improvement :: int
  skip_initialization :: int
  chainlength_patience :: int
  rng_seed :: "64 word"
  tries :: int
  verbose :: int
  inner_rounds :: int
  timeout :: int
  max_beta :: int
  return_overlap :: int
  max_fill :: int
  threads :: int
  fixed_chains :: chainmap
  initial_chains :: chainmap
  restrict_chains :: chainmap

text \<open>
  Modelled from the spec: \<open>labeldict\<close>, the label table of \<open>minorminer.pxi\<close>, which
  is not part of the sources at hand. The spec describes it as an insertion-ordered
  bidirectional mapping, a hash from label to id plus a vector from id to label: looking
  a label up gives its id, a label not yet present being given the next dense id;
  \<open>in\<close> tests presence without inserting; \<open>label(k)\<close> is the label of id \<open>k\<close>;
  \<open>len\<close> is the number of labels. The table is the list of its labels in order of
  insertion, the id of a label being its position.
\<close>

type_synonym labeldict = "label list"

text \<open>
  Modelled from the spec: the position of a label in the table, the search behind the
  hash of \<open>labeldict\<close>.
\<close>

fun index_of :: "'a \<Rightarrow> 'a list \<Rightarrow> nat option" where
  "index_of a [] = None"
| "index_of a (x # xs) = (if x = a then Some 0 else map_option Suc (index_of a xs))"

text \<open>
  Modelled from the spec: \<open>labeldict.__getitem__\<close>, which gives the id of a label and
  appends a label not yet present under the next dense id.
\<close>

definition labeldict_getitem :: "labeldict \<Rightarrow> label \<Rightarrow> int \<times> labeldict" where
  "labeldict_getitem L a =
     (case index_of a L of Some i \<Rightarrow> (int i, L) | None \<Rightarrow> (int (length L), L @ [a]))"

text \<open>
  Modelled from the spec: the test \<open>l in L\<close>, which inserts nothing.
\<close>

definition labeldict_contains :: "label \<Rightarrow> labeldict \<Rightarrow> bool" where
  "labeldict_contains a L = (a \<in> set L)"

text \<open>
  Modelled from the spec: \<open>labeldict.label(k)\<close>, the label of id \<open>k\<close>; an id
  outside the table is an \<open>IndexError\<close>.
\<close>

definition labeldict_label :: "labeldict \<Rightarrow> int \<Rightarrow> error + label" where
  "labeldict_label L k =
     (if 0 \<le> k \<and> k < int (length L) then Inr (L ! nat k) else Inl IndexError)"

text \<open>
  Modelled from the spec: \<open>input_graph\<close>, the graph type of the C++ core, declared
  outside the sources at hand. It is the list of the edges pushed into it, as pairs of
  dense ids.
\<close>

type_synonym input_graph = "(int \<times> int) list"

definition push_back :: "input_graph \<Rightarrow> int \<Rightarrow> int \<Rightarrow> input_graph" where
  "push_back g a b = g @ [(a, b)]"

text \<open>
  \<open>_read_graph(g, E)\<close>: a fresh label table, filled in the order in which the labels
  appear in the edge list.
\<close>

fun read_graph_loop :: "input_graph \<Rightarrow> labeldict \<Rightarrow> (label \<times> label) list \<Rightarrow> input_graph \<times> labeldict" where
  "read_graph_loop g L [] = (g, L)"
| "read_graph_loop g L ((a, b) # E) =
     (let (ia, L) = labeldict_getitem L a;
          (ib, L) = labeldict_getitem L b
      in read_graph_loop (push_back g ia ib) L E)"

definition read_graph :: "input_graph \<Rightarrow> (label \<times> label) list \<Rightarrow> input_graph \<times> labeldict" where
  "read_graph g E = read_graph_loop g [] E"

text \<open>
  The class \<open>_input_parser\<close>. Its C attribute \<open>pincount\<close> is zero when the object is
  allocated, as every C attribute of a \<open>cdef class\<close> is.
\<close>

record input_parser =
  Sg :: input_graph
  Tg :: input_graph
  SL :: labeldict
  TL :: labeldict
  opts :: optional_parameters
  pincount :: int

text \<open>
  The first step of \<open>__init__\<close>: every key of \<open>params\<close> must be one of \<open>names\<close>.
\<close>

definition names :: "string list" where
  "names = [''max_no_improvement'', ''random_seed'', ''timeout'', ''tries'', ''verbose'',
            ''fixed_chains'', ''initial_chains'', ''max_fill'', ''chainlength_patience'',
            ''return_overlap'', ''skip_initialization'', ''inner_rounds'', ''threads'',
            ''restrict_chains'', ''suspend_chains'', ''max_beta'']"

fun check_names :: "string list \<Rightarrow> error + unit" where
  "check_names [] = Inr ()"
| "check_names (name # rest) =
     (if name \<notin> set names
      then Inl (ValueError (name @ '' is not a valid parameter for find_embedding''))
      else check_names rest)"

text \<open>
  The options: each \<open>try: self.opts.x = int(params["x"])\<close> with
  \<open>except KeyError: pass\<close>. A missing key leaves the default, any other exception
  propagates. \<open>random_seed\<close> is converted to \<open>uint64_t\<close>; when it is missing the
  seed is read from \<open>os.urandom\<close>, which the model takes as an argument.
\<close>

fun py_int :: "pval \<Rightarrow> error + int" where
  "py_int (PInt i) = Inr i"
| "py_int _ = Inl TypeError"

definition set_int_option :: "params \<Rightarrow> string \<Rightarrow> (int \<Rightarrow> optional_parameters \<Rightarrow> optional_parameters)
    \<Rightarrow> input_parser \<Rightarrow> error + input_parser" where
  "set_int_option ps name upd self =
     (case map_of ps name of
        None \<Rightarrow> Inr self
      | Some v \<Rightarrow> ebind (py_int v) (\<lambda>i. Inr (self\<lparr>opts := upd i (opts self)\<rparr>)))"

definition set_seed :: "params \<Rightarrow> 64 word \<Rightarrow> input_parser \<Rightarrow> error + input_parser" where
  "set_seed ps urandom self =
     (case map_of ps ''random_seed'' of
        None \<Rightarrow> Inr (self\<lparr>opts := (opts self)\<lparr>rng_seed := urandom\<rparr>\<rparr>)
      | Some v \<Rightarrow> ebind (py_int v) (\<lambda>i.
          if 0 \<le> i \<and> i < 2 ^ 64 then Inr (self\<lparr>opts := (opts self)\<lparr>rng_seed := word_of_int i\<rparr>\<rparr>)
          else Inl OverflowError))"

text \<open>
  \<open>suspend_chains\<close>: for the \<open>i\<close>-th blob of source node \<open>v\<close> the pin is the
  tuple \<open>("__MINORMINER_INTERNAL_PIN_FOR_SUSPENSION", v, i)\<close>. The loop counts the
  pins in \<open>pincount\<close>, which in the source is a plain name assigned in the body of
  \<open>__init__\<close>, that is a local variable of the method (\<open>pincount_local\<close> below) and
  not the attribute \<open>self.pincount\<close>. \<open>fixed_chains_local\<close> is the local
  \<open>fixed_chains\<close> dictionary.
\<close>

definition pin_label :: "label \<Rightarrow> nat \<Rightarrow> label" where
  "pin_label v i = LTuple [LStr ''__MINORMINER_INTERNAL_PIN_FOR_SUSPENSION'', v, LInt (int i)]"

fun dict_set :: "'k \<Rightarrow> 'v \<Rightarrow> ('k \<times> 'v) list \<Rightarrow> ('k \<times> 'v) list" where
  "dict_set k v [] = [(k, v)]"
| "dict_set k v ((k', v') # d) = (if k' = k then (k, v) # d else (k', v') # dict_set k v d)"

definition dict_get :: "('k \<times> 'v) list \<Rightarrow> 'k \<Rightarrow> 'v \<Rightarrow> 'v" where
  "dict_get d k dflt = (case map_of d k of Some v \<Rightarrow> v | None \<Rightarrow> dflt)"

record suspend_state =
  parser :: input_parser
  pincount_local :: int
  fixed_chains_local :: "(label \<times> label list) list"

fun blob_loop :: "label \<Rightarrow> label list \<Rightarrow> input_parser \<times> int \<Rightarrow> input_parser \<times> int" where
  "blob_loop pin [] (self, nonempty) = (self, nonempty)"
| "blob_loop pin (q # blob) (self, nonempty) =
     (let (ip, L) = labeldict_getitem (TL self) pin;
          (iq, L) = labeldict_getitem L q;
          self = self\<lparr>TL := L, Tg := push_back (Tg self) ip iq\<rparr>
      in blob_loop pin blob (self, 1))"

fun blobs_loop :: "label \<Rightarrow> (nat \<times> label list) list \<Rightarrow> suspend_state \<Rightarrow> error + suspend_state" where
  "blobs_loop v [] st = Inr st"
| "blobs_loop v ((i, blob) # rest) st =
     (let pin = pin_label v i in
      if labeldict_contains pin (SL (parser st)) then
        Inl (ValueError ''node label %s is a special value used by the suspend_chains feature; please relabel your source graph'')
      else if labeldict_contains pin (TL (parser st)) then
        Inl (ValueError ''node label %s is a special value used by the suspend_chains feature; please relabel your target graph'')
      else
        (let (s, nonempty) = blob_loop pin blob (parser st, 0);
             st = st\<lparr>parser := s\<rparr>;
             st = (if nonempty \<noteq> 0 then
                    (let pc = pincount_local st + 1;
                         fc = dict_set pin [pin] (fixed_chains_local st);
                         (iv, L) = labeldict_getitem (SL s) v;
                         (ip, L) = labeldict_getitem L pin
                     in st\<lparr>pincount_local := pc, fixed_chains_local := fc,
                           parser := s\<lparr>SL := L, Sg := push_back (Sg s) iv ip\<rparr>\<rparr>)
                  else st)
         in blobs_loop v rest st))"

fun suspend_loop :: "(label \<times> label list list) list \<Rightarrow> suspend_state \<Rightarrow> error + suspend_state" where
  "suspend_loop [] st = Inr st"
| "suspend_loop ((v, blobs) # rest) st =
     ebind (blobs_loop v (enumerate 0 blobs) st) (suspend_loop rest)"

text \<open>
  \<open>_get_chainmap(C, CMap, SL, TL)\<close>, for label tables that are not \<open>None\<close>: entries
  with an empty chain are skipped, the labels of a chain are looked up (and thereby
  inserted when new) before the label of its source node.
\<close>

fun chain_loop :: "label list \<Rightarrow> labeldict \<Rightarrow> int list \<Rightarrow> int list \<times> labeldict" where
  "chain_loop [] L chain = (chain, L)"
| "chain_loop (x # xs) L chain =
     (let (ix, L) = labeldict_getitem L x in chain_loop xs L (chain @ [ix]))"

definition chainmap_insert :: "int \<Rightarrow> int list \<Rightarrow> chainmap \<Rightarrow> chainmap" where
  "chainmap_insert k c m = (if k \<in> fst ` set m then m else m @ [(k, c)])"

fun get_chainmap_loop :: "(label \<times> label list) list \<Rightarrow> chainmap \<times> labeldict \<times> labeldict \<Rightarrow>
    chainmap \<times> labeldict \<times> labeldict" where
  "get_chainmap_loop [] st = st"
| "get_chainmap_loop ((a, c) # rest) (CMap, sld, tld) =
     (if c \<noteq> [] then
        (let (chain, tld) = chain_loop c tld [];
             (ia, sld) = labeldict_getitem sld a
         in get_chainmap_loop rest (chainmap_insert ia chain CMap, sld, tld))
      else get_chainmap_loop rest (CMap, sld, tld))"

definition get_chainmap :: "(label \<times> label list) list \<Rightarrow> labeldict \<Rightarrow> labeldict \<Rightarrow>
    chainmap \<times> labeldict \<times> labeldict" where
  "get_chainmap C sld tld = get_chainmap_loop C ([], sld, tld)"

definition get_chains_param :: "params \<Rightarrow> string \<Rightarrow> error + (label \<times> label list) list" where
  "get_chains_param ps name =
     (case map_of ps name of
        None \<Rightarrow> Inr []
      | Some (PChains c) \<Rightarrow> Inr c
      | Some _ \<Rightarrow> Inl TypeError)"

definition apply_chainmap :: "string \<Rightarrow> (label \<times> label list) list \<Rightarrow>
    (chainmap \<Rightarrow> optional_parameters \<Rightarrow> optional_parameters) \<Rightarrow> int \<Rightarrow> int \<Rightarrow>
    input_parser \<Rightarrow> error + input_parser" where
  "apply_chainmap what C upd checkS checkT self =
     (let (cm, sld, tld) = get_chainmap C (SL self) (TL self);
          self = self\<lparr>opts := upd cm (opts self), SL := sld, TL := tld\<rparr>
      in if checkS < int (length (SL self)) then
           Inl (RuntimeError (what @ '' use source node labels that weren't referred to by any edges''))
         else if checkT < int (length (TL self)) then
           Inl (RuntimeError (what @ '' use target node labels that weren't referred to by any edges''))
         else Inr self)"

text \<open>
  \<open>_input_parser.__init__\<close>, in the order of the source: the check of the option
  names, the options, the two graphs, the pins, the three chain maps. The
  default-constructed \<open>optional_parameters\<close> is an argument.
\<close>

fun run_stages :: "('a \<Rightarrow> error + 'a) list \<Rightarrow> 'a \<Rightarrow> error + 'a" where
  "run_stages [] x = Inr x"
| "run_stages (f # fs) x = ebind (f x) (run_stages fs)"

definition parse_options :: "params \<Rightarrow> 64 word \<Rightarrow> input_parser \<Rightarrow> error + input_parser" where
  "parse_options ps urandom =
     run_stages
       [set_int_option ps ''max_no_improvement'' (\<lambda>i p. p\<lparr>max_no_improvement := i\<rparr>),
        set_int_option ps ''skip_initialization'' (\<lambda>i p. p\<lparr>skip_initialization := i\<rparr>),
        set_int_option ps ''chainlength_patience'' (\<lambda>i p. p\<lparr>chainlength_patience := i\<rparr>),
        set_seed ps urandom,
        set_int_option ps ''tries'' (\<lambda>i p. p\<lparr>tries := i\<rparr>),
        set_int_option ps ''verbose'' (\<lambda>i p. p\<lparr>verbose := i\<rparr>),
        set_int_option ps ''inner_rounds'' (\<lambda>i p. p\<lparr>inner_rounds := i\<rparr>),
        set_int_option ps ''timeout'' (\<lambda>i p. p\<lparr>timeout := i\<rparr>),
        set_int_option ps ''max_beta'' (\<lambda>i p. p\<lparr>max_beta := i\<rparr>),
        set_int_option ps ''return_overlap'' (\<lambda>i p. p\<lparr>return_overlap := i\<rparr>),
        set_int_option ps ''max_fill'' (\<lambda>i p. p\<lparr>max_fill := i\<rparr>),
        set_int_option ps ''threads'' (\<lambda>i p. p\<lparr>threads := i\<rparr>)]"

definition read_graphs :: "(label \<times> label) list \<Rightarrow> (label \<times> label) list \<Rightarrow> input_parser \<Rightarrow> input_parser" where
  "read_graphs S T self =
     (let (g, L) = read_graph (Sg self) S;
          self = self\<lparr>Sg := g, SL := L\<rparr>;
          (g, L) = read_graph (Tg self) T
      in self\<lparr>Tg := g, TL := L\<rparr>)"

definition suspend_chains_stage :: "params \<Rightarrow> input_parser \<Rightarrow> error + suspend_state" where
  "suspend_chains_stage ps self =
     ebind (get_chains_param ps ''fixed_chains'') (\<lambda>fixed_chains.
       let st = \<lparr>parser = self, pincount_local = 0, fixed_chains_local = fixed_chains\<rparr> in
       case map_of ps ''suspend_chains'' of
         None \<Rightarrow> Inr st
       | Some (PBlobs suspend_chains) \<Rightarrow> suspend_loop suspend_chains st
       | Some _ \<Rightarrow> Inl TypeError)"

definition chainmaps_stage :: "params \<Rightarrow> int \<Rightarrow> int \<Rightarrow> suspend_state \<Rightarrow> error + input_parser" where
  "chainmaps_stage ps checkS checkT st =
     (let self = parser st;
          pincount = pincount_local st;
          fixed_chains = fixed_chains_local st
      in
      if checkS + pincount < int (length (SL self)) then
        Inl (RuntimeError ''suspend_chains use source node labels that weren't referred to by any edges'')
      else if checkT + pincount < int (length (TL self)) then
        Inl (RuntimeError ''suspend_chains use target node labels that weren't referred to by any edges'')
      else
        (let checkS = checkS + pincount;
             checkT = checkT + pincount
         in
         ebind (apply_chainmap ''fixed_chains'' fixed_chains (\<lambda>c p. p\<lparr>fixed_chains := c\<rparr>)
                  checkS checkT self) (\<lambda>self.
         ebind (get_chains_param ps ''initial_chains'') (\<lambda>initial.
         ebind (apply_chainmap ''initial_chains'' initial (\<lambda>c p. p\<lparr>initial_chains := c\<rparr>)
                  checkS checkT self) (\<lambda>self.
         ebind (get_chains_param ps ''restrict_chains'') (\<lambda>restricted.
         apply_chainmap ''restrict_chains'' restricted (\<lambda>c p. p\<lparr>restrict_chains := c\<rparr>)
           checkS checkT self))))))"

definition input_parser_init :: "optional_parameters \<Rightarrow> 64 word \<Rightarrow>
    (label \<times> label) list \<Rightarrow> (label \<times> label) list \<Rightarrow> params \<Rightarrow> error + input_parser" where
  "input_parser_init dflt urandom S T ps =
     (let self = \<lparr>Sg = [], Tg = [], SL = [], TL = [], opts = dflt, pincount = 0\<rparr> in
      ebind (check_names (map fst ps)) (\<lambda>_.
      ebind (parse_options ps urandom self) (\<lambda>self.
      let self = read_graphs S T self;
          checkT = int (length (TL self));
          checkS = int (length (SL self))
      in
      ebind (suspend_chains_stage ps self) (\<lambda>st.
      chainmaps_stage ps checkS checkT st))))"

text \<open>
  \<open>find_embedding(S, T, **params)\<close>. The heuristic itself, the C++ function
  \<open>findEmbedding\<close>, is outside the sources at hand: it is a field of the environment,
  a function from the two graphs and the options to the success flag and the chains it
  leaves in \<open>chains\<close>. The result is the dictionary \<open>rchain\<close>, with the flag when
  \<open>return_overlap\<close> is set.
\<close>

type_synonym core = "input_graph \<Rightarrow> input_graph \<Rightarrow> optional_parameters \<Rightarrow> int \<times> int list list"

record environment =
  defaults :: optional_parameters
  urandom :: "64 word"
  findEmbedding :: core

datatype embedding_result =
    Mapping "(label \<times> label list) list"
  | Mapping_success "(label \<times> label list) list" int

fun labels_of :: "labeldict \<Rightarrow> int list \<Rightarrow> error + label list" where
  "labels_of L [] = Inr []"
| "labels_of L (z # zs) =
     ebind (labeldict_label L z) (\<lambda>l. ebind (labels_of L zs) (\<lambda>ls. Inr (l # ls)))"

fun rchain_loop :: "input_parser \<Rightarrow> int list list \<Rightarrow> int list \<Rightarrow> (label \<times> label list) list \<Rightarrow>
    error + (label \<times> label list) list" where
  "rchain_loop inp chns [] rchain = Inr rchain"
| "rchain_loop inp chns (v # vs) rchain =
     (if 0 \<le> v \<and> v < int (length chns) then
        (let chain = chns ! nat v in
         ebind (labels_of (TL inp) chain) (\<lambda>ls.
         ebind (labeldict_label (SL inp) v) (\<lambda>l.
         rchain_loop inp chns vs (dict_set l ls rchain))))
      else Inl IndexError)"

definition find_embedding :: "environment \<Rightarrow> (label \<times> label) list \<Rightarrow> (label \<times> label) list \<Rightarrow>
    params \<Rightarrow> error + embedding_result" where
  "find_embedding env S T ps =
     ebind (input_parser_init (defaults env) (urandom env) S T ps) (\<lambda>inp.
     let (success, chns) = findEmbedding env (Sg inp) (Tg inp) (opts inp);
         nc = int (length chns)
     in
     ebind (if chns \<noteq> [] then rchain_loop inp chns [0 .. nc - pincount inp - 1] [] else Inr []) (\<lambda>rchain.
     if return_overlap (opts inp) \<noteq> 0 then Inr (Mapping_success rchain success)
     else Inr (Mapping rchain)))"

text \<open>
  The methods \<open>count_overlaps\<close>, \<open>histogram_key\<close> and \<open>quality_key\<close> of the class
  \<open>minorminer\<close>. An embedding is a dictionary from source labels to chains.

  \<open>count_overlaps(self, list chains)\<close> and \<open>histogram_key(self, list sizes)\<close> declare
  their argument as a \<open>list\<close>, so a call tests the type of the object it passes and
  raises \<open>TypeError\<close> for an object that is not a list. \<open>quality_key\<close> passes them
  \<open>emb.values()\<close> and \<open>o.values()\<close>. What \<open>values()\<close> of a dictionary returns
  depends on the interpreter the module is built for, which the sources do not fix: a
  list under Python 2, a view of the dictionary under Python 3. The interpreter is the
  parameter \<open>py3\<close>. Iterating over either gives the values in the order of the
  dictionary. \<open>count_overlaps_body\<close> and \<open>histogram_key_body\<close> are the bodies of the
  two methods, which run once the argument has passed the test.

  \<open>sorted(h.items(), reverse = True)\<close> sorts pairs of integers, which Python orders
  lexicographically. The two shapes of the result, \<open>(state,)\<close> and \<open>(state, O, L)\<close>,
  are the two constructors of \<open>quality\<close>.
\<close>

datatype 'a pyobj = PyList "'a list" | PyDictValues "'a list"

definition dict_values :: "bool \<Rightarrow> ('k \<times> 'v) list \<Rightarrow> 'v pyobj" where
  "dict_values py3 d = (if py3 then PyDictValues (map snd d) else PyList (map snd d))"

fun iter :: "'a pyobj \<Rightarrow> 'a list" where
  "iter (PyList xs) = xs"
| "iter (PyDictValues xs) = xs"

fun list_arg :: "'a pyobj \<Rightarrow> error + 'a list" where
  "list_arg (PyList xs) = Inr xs"
| "list_arg (PyDictValues xs) = Inl TypeError"

definition count_overlaps_body :: "'q list list \<Rightarrow> ('q \<times> int) list" where
  "count_overlaps_body chns =
     foldl (\<lambda>ov chain. foldl (\<lambda>ov q. dict_set q (1 + dict_get ov q (- 1)) ov) ov chain) [] chns"

definition count_overlaps :: "'q list pyobj \<Rightarrow> error + ('q \<times> int) list" where
  "count_overlaps chns_arg = ebind (list_arg chns_arg) (\<lambda>chns. Inr (count_overlaps_body chns))"

definition histogram_key_body :: "int list \<Rightarrow> int list" where
  "histogram_key_body sizes =
     (let h = foldl (\<lambda>h s. if s \<noteq> 0 then dict_set s (1 + dict_get h s 0) h else h) [] sizes
      in concat (map (\<lambda>t. [fst t, snd t]) (rev (sort h))))"

definition histogram_key :: "int pyobj \<Rightarrow> error + int list" where
  "histogram_key sizes_arg = ebind (list_arg sizes_arg) (\<lambda>sizes. Inr (histogram_key_body sizes))"

datatype quality = Quality1 int | Quality3 int "int list" "int list"

definition quality_key :: "bool \<Rightarrow> ('s \<times> 'q list) list \<Rightarrow> bool \<Rightarrow> error + quality" where
  "quality_key py3 emb embedded =
     (let state = 2 in
      if emb = [] then Inr (Quality1 state)
      else
        (let state = 0 in
         ebind (histogram_key (PyList (map (\<lambda>c. int (length c)) (iter (dict_values py3 emb))))) (\<lambda>L.
         ebind (if embedded then Inr (state, [])
                else
                  ebind (count_overlaps (dict_values py3 emb)) (\<lambda>ov.
                  ebind (histogram_key (dict_values py3 ov)) (\<lambda>Ov.
                  Inr (if length Ov \<noteq> 0 then 1 else state, Ov)))) (\<lambda>(state, Ov).
         Inr (Quality3 state Ov L)))))"

text \<open>
  Python's \<open><\<close> on these tuples: the first differing component decides, a proper
  prefix is smaller; lists of integers compare in the same way.
\<close>

fun list_less :: "int list \<Rightarrow> int list \<Rightarrow> bool" where
  "list_less [] [] = False"
| "list_less [] (y # ys) = True"
| "list_less (x # xs) [] = False"
| "list_less (x # xs) (y # ys) = (x < y \<or> (x = y \<and> list_less xs ys))"

fun quality_less :: "quality \<Rightarrow> quality \<Rightarrow> bool" where
  "quality_less (Quality1 s) (Quality1 t) = (s < t)"
| "quality_less (Quality1 s) (Quality3 t Ov L) = (s \<le> t)"
| "quality_less (Quality3 s Ov L) (Quality1 t) = (s < t)"
| "quality_less (Quality3 s Ov L) (Quality3 t Ov' L') =
     (s < t \<or> (s = t \<and> (list_less Ov Ov' \<or> (Ov = Ov' \<and> list_less L L'))))"

section \<open>Notions used to state the properties\<close>

subsection \<open>Queues\<close>

text \<open>
  The generation data of a fast-reset queue: the stamps of its nodes, in array order, and
  the counter. \<open>gen_ok\<close> says that no stamp is ahead of the counter in the round the
  counter is making through the values of \<open>int\<close>: while the counter is positive the
  stamps lie between 0 and the counter, and once it has wrapped to the negative values
  they are nonnegative or at most the counter. At counter 0 a stamp may be anything.
\<close>

definition gen :: "'p fast_queue \<Rightarrow> int list \<times> int" where
  "gen q = (map time (nodes q), now q)"

definition gen_ok :: "'p fast_queue \<Rightarrow> bool" where
  "gen_ok q =
     ((\<forall>x \<in> set (nodes q).
         (0 < now q \<longrightarrow> 0 \<le> time x \<and> time x \<le> now q) \<and>
         (now q < 0 \<longrightarrow> 0 \<le> time x \<or> time x \<le> now q)) \<and>
      INT_MIN \<le> now q \<and> now q \<le> INT_MAX)"

text \<open>
  The states of a \<open>pairing_queue_fast_reset\<close> that a program can reach: the constructor,
  followed by any calls of the public methods that change the object (its own and the
  inherited ones), as long as each call has a result, in the build given by \<open>dbg\<close>.
\<close>

inductive fr_reachable :: "bool \<Rightarrow> ('p::{linorder,zero}) fast_queue \<Rightarrow> bool"
  for dbg :: bool where
  init: "pairing_queue_fast_reset_init n = Some q \<Longrightarrow> fr_reachable dbg q"
| reset: "fr_reachable dbg q \<Longrightarrow> fr_reachable dbg (fr_reset q)"
| set_value:
    "fr_reachable dbg q \<Longrightarrow> fr_set_value dbg k v q = Some q' \<Longrightarrow> fr_reachable dbg q'"
| set_value_unsafe:
    "fr_reachable dbg q \<Longrightarrow> fr_set_value_unsafe dbg k v q = Some q' \<Longrightarrow> fr_reachable dbg q'"
| check_decrease_value:
    "fr_reachable dbg q \<Longrightarrow> fr_check_decrease_value dbg k v q = Some (b, q') \<Longrightarrow>
       fr_reachable dbg q'"
| delete_min: "fr_reachable dbg q \<Longrightarrow> delete_min dbg q = Some (b, q') \<Longrightarrow> fr_reachable dbg q'"
| pop_min:
    "fr_reachable dbg q \<Longrightarrow> pop_min dbg k v q = Some (b, k', v', q') \<Longrightarrow> fr_reachable dbg q'"
| decrease_value:
    "fr_reachable dbg q \<Longrightarrow> decrease_value dbg k v q = Some q' \<Longrightarrow> fr_reachable dbg q'"
| reset_fill: "fr_reachable dbg q \<Longrightarrow> reset_fill dbg v q = Some q' \<Longrightarrow> fr_reachable dbg q'"

text \<open>
  The one-node queue after \<open>2^32 - 1\<close> calls of \<open>reset()\<close> and nothing else: the
  counter has gone round to \<open>-1\<close>, and the node still has the stamp and the value it was
  constructed with.
\<close>

definition q_wrap :: "int fast_queue" where
  "q_wrap = \<lparr>nodes = [\<lparr>val = 0, nxt = None, desc = None, prev = None, time = 0\<rparr>],
             root = None, now = - 1\<rparr>"

text \<open>
  The calls a client makes on a queue and what it observes of each: nothing for
  \<open>set_value\<close>, the returned flag for \<open>check_decrease_value\<close>, \<open>delete_min\<close> and
  \<open>empty\<close>, the flag and, when it is true, the key and value written by \<open>pop_min\<close>,
  the reported minimum for \<open>min_value\<close> and \<open>min_key\<close>. \<open>run_plain\<close> and
  \<open>run_fast\<close> apply a list of calls to a \<open>pairing_queue\<close> and to a
  \<open>pairing_queue_fast_reset\<close> and collect the observations.
\<close>

datatype 'p op = Set_value int 'p | Check_decrease_value int 'p | Pop_min | Delete_min
  | Min_value | Min_key | Empty

datatype 'p obs = Done | Flag bool | Popped int 'p | Value 'p | Key int

fun step_plain :: "bool \<Rightarrow> ('p::{linorder,zero}) op \<Rightarrow> ('p, unit) pairing_queue \<Rightarrow>
    ('p obs \<times> ('p, unit) pairing_queue) option" where
  "step_plain dbg (Set_value k v) q = do { q \<leftarrow> set_value dbg k v q; Some (Done, q) }"
| "step_plain dbg (Check_decrease_value k v) q =
     do { (b, q) \<leftarrow> check_decrease_value dbg k v q; Some (Flag b, q) }"
| "step_plain dbg Pop_min q =
     do { (b, k, v, q) \<leftarrow> pop_min dbg 0 0 q; Some (if b then Popped k v else Flag False, q) }"
| "step_plain dbg Delete_min q = do { (b, q) \<leftarrow> delete_min dbg q; Some (Flag b, q) }"
| "step_plain dbg Min_value q = do { v \<leftarrow> min_value dbg q; Some (Value v, q) }"
| "step_plain dbg Min_key q = do { k \<leftarrow> min_key dbg q; Some (Key k, q) }"
| "step_plain dbg Empty q = Some (Flag (empty_queue q), q)"

fun run_plain :: "bool \<Rightarrow> ('p::{linorder,zero}) op list \<Rightarrow> ('p, unit) pairing_queue \<Rightarrow>
    'p obs list option" where
  "run_plain dbg [] q = Some []"
| "run_plain dbg (x # xs) q =
     do { (o1, q) \<leftarrow> step_plain dbg x q; os \<leftarrow> run_plain dbg xs q; Some (o1 # os) }"

fun step_fast :: "bool \<Rightarrow> ('p::{linorder,zero}) op \<Rightarrow> 'p fast_queue \<Rightarrow>
    ('p obs \<times> 'p fast_queue) option" where
  "step_fast dbg (Set_value k v) q = do { q \<leftarrow> fr_set_value dbg k v q; Some (Done, q) }"
| "step_fast dbg (Check_decrease_value k v) q =
     do { (b, q) \<leftarrow> fr_check_decrease_value dbg k v q; Some (Flag b, q) }"
| "step_fast dbg Pop_min q =
     do { (b, k, v, q) \<leftarrow> pop_min dbg 0 0 q; Some (if b then Popped k v else Flag False, q) }"
| "step_fast dbg Delete_min q = do { (b, q) \<leftarrow> delete_min dbg q; Some (Flag b, q) }"
| "step_fast dbg Min_value q = do { v \<leftarrow> min_value dbg q; Some (Value v, q) }"
| "step_fast dbg Min_key q = do { k \<leftarrow> min_key dbg q; Some (Key k, q) }"
| "step_fast dbg Empty q = Some (Flag (empty_queue q), q)"

fun run_fast :: "bool \<Rightarrow> ('p::{linorder,zero}) op list \<Rightarrow> 'p fast_queue \<Rightarrow> 'p obs list option" where
  "run_fast dbg [] q = Some []"
| "run_fast dbg (x # xs) q =
     do { (o1, q) \<leftarrow> step_fast dbg x q; os \<leftarrow> run_fast dbg xs q; Some (o1 # os) }"

text \<open>
  Concrete queues with priorities of type \<open>long long\<close>, whose \<open>max_P\<close> is
  \<open>LLONG_MAX\<close>: a queue of \<open>n\<close> keys after the constructor and one \<open>reset()\<close>.
\<close>

definition LLONG_MAX :: int where
  "LLONG_MAX = 9223372036854775807"

definition fresh_plain :: "bool \<Rightarrow> int \<Rightarrow> (int, unit) pairing_queue option" where
  "fresh_plain dbg n = do { q \<leftarrow> pairing_queue_init n; reset dbg LLONG_MAX q }"

definition fresh_fast :: "int \<Rightarrow> int fast_queue option" where
  "fresh_fast n = do { q \<leftarrow> pairing_queue_fast_reset_init n; Some (fr_reset q) }"

subsection \<open>Quality keys\<close>

text \<open>
  The two loop bodies of \<open>histogram_key\<close> and \<open>count_overlaps\<close>, named for the
  proofs.
\<close>

definition tally :: "(int \<times> int) list \<Rightarrow> int \<Rightarrow> (int \<times> int) list" where
  "tally h s = (if s \<noteq> 0 then dict_set s (1 + dict_get h s 0) h else h)"

definition bump :: "('q \<times> int) list \<Rightarrow> 'q \<Rightarrow> ('q \<times> int) list" where
  "bump ov q = dict_set q (1 + dict_get ov q (- 1)) ov"

text \<open>
  The histogram of a list of integers as the specification words it: the pairs
  (value, number of occurrences), by value descending, flattened. The overlap counts of
  an embedding: for each target node that occurs in some chain, the number of its
  occurrences across the chains, minus one.
\<close>

definition histogram :: "int list \<Rightarrow> int list" where
  "histogram xs =
     concat (map (\<lambda>v. [v, int (count_list xs v)]) (rev (sorted_list_of_set (set xs))))"

definition overlap_counts :: "'q list list \<Rightarrow> int list" where
  "overlap_counts chns =
     map (\<lambda>q. int (count_list (concat chns) q) - 1) (remdups (concat chns))"

text \<open>
  The quality key in the words of the specification, twice: \<open>quality_claimed\<close> takes the
  histogram of all chain lengths, \<open>quality_spec\<close> that of the nonzero ones. Both leave
  zero overlap counts out.
\<close>

definition quality_claimed :: "('s \<times> 'q list) list \<Rightarrow> bool \<Rightarrow> quality" where
  "quality_claimed emb embedded =
     (if emb = [] then Quality1 2
      else
        (let L = histogram (map (\<lambda>c. int (length c)) (map snd emb));
             Ov = (if embedded then []
                   else histogram (filter (\<lambda>s. s \<noteq> 0) (overlap_counts (map snd emb))));
             state = (if Ov \<noteq> [] then 1 else 0)
         in Quality3 state Ov L))"

definition quality_spec :: "('s \<times> 'q list) list \<Rightarrow> bool \<Rightarrow> quality" where
  "quality_spec emb embedded =
     (if emb = [] then Quality1 2
      else
        (let L = histogram (filter (\<lambda>s. s \<noteq> 0) (map (\<lambda>c. int (length c)) (map snd emb)));
             Ov = (if embedded then []
                   else histogram (filter (\<lambda>s. s \<noteq> 0) (overlap_counts (map snd emb))));
             state = (if Ov \<noteq> [] then 1 else 0)
         in Quality3 state Ov L))"

subsection \<open>A call of find_embedding\<close>

text \<open>
  An environment for concrete calls: some default options, and a heuristic that succeeds
  with one single-node chain for each of three source nodes, the third chain being the
  fixed chain of a pin.
\<close>

definition pin_env :: environment where
  "pin_env = \<lparr>defaults = \<lparr>max_no_improvement = 10, skip_initialization = 0,
      chainlength_patience = 10, rng_seed = 0, tries = 10, verbose = 0,
      inner_rounds = 2147483647, timeout = 1000, max_beta = 2147483647, return_overlap = 0,
      max_fill = 2147483647, threads = 1,
      fixed_chains = [], initial_chains = [], restrict_chains = []\<rparr>,
     urandom = 0,
     findEmbedding = (\<lambda>sg tg p. (1, [[0], [1], [2]]))\<rparr>"

section \<open>Properties of the generator\<close>

lemma discard_loop_step:
  "0 < n \<Longrightarrow> discard_loop n g = discard_loop (n - 1) (snd (rng_next g))"
  by (subst discard_loop.simps) (simp add: rng_next_def Let_def)

lemma discard_loop_stop: "n \<le> 0 \<Longrightarrow> discard_loop n g = g"
  by (subst discard_loop.simps) simp

lemma discard_loop_funpow:
  "discard_loop (int k) g = ((\<lambda>h. snd (rng_next h)) ^^ k) g"
proof (induction k arbitrary: g)
  case 0
  show ?case by (simp add: discard_loop_stop)
next
  case (Suc k)
  have "discard_loop (int (Suc k)) g = discard_loop (int k) (snd (rng_next g))"
    using discard_loop_step [of "int (Suc k)" g] by simp
  also have "\<dots> = ((\<lambda>h. snd (rng_next h)) ^^ k) (snd (rng_next g))"
    by (rule Suc.IH)
  finally show ?case
    using funpow_swap1 [of "\<lambda>h. snd (rng_next h)" k g] by simp
qed

lemma overwrite_both_words:
  "(g\<lparr>S0 := a, S1 := b\<rparr> :: fastrng) = g'\<lparr>S0 := a, S1 := b\<rparr>"
  by (rule fastrng.equality) simp_all

lemma seed_overwrites: "seed x g = seed x g'"
  by (simp add: seed_def Let_def overwrite_both_words [where g = g and g' = g'] split: prod.splits)

lemma seed_defined: "seed x g \<noteq> None"
  by (simp add: seed_def discard_def INT_MIN_def Let_def split: prod.splits)

text \<open>
  Claim C8. Two generators seeded with the same 64-bit value produce the same outputs:
  whatever the two objects held before \<open>seed(x)\<close> (the constructor initialises
  nothing), the first \<open>n\<close> outputs after the call are defined and agree, for every
  \<open>n\<close>. The stream is a function of the seed alone.
\<close>

theorem seeded_stream_deterministic:
  "seeded_stream x g1 n = seeded_stream x g2 n \<and> seeded_stream x g1 n \<noteq> None"
  using seed_overwrites [of x g1 g2] seed_defined [of x g1]
  by (simp add: seeded_stream_def)

text \<open>
  Claim C9. For every state and every \<open>n \<ge> 0\<close>, \<open>discard(n)\<close> has defined behaviour and
  leaves the state that \<open>n\<close> calls of \<open>operator()\<close> leave, their outputs dropped.
\<close>

theorem discard_matches_calls:
  "0 \<le> n \<Longrightarrow> discard n g = Some (((\<lambda>h. snd (rng_next h)) ^^ nat n) g)"
  using discard_loop_funpow [of "nat n" g] by (simp add: discard_def INT_MIN_def)

theorem discard_matches_calls_witness:
  "(0::int) \<le> 3 \<and>
   discard 3 \<lparr>S0 = 1, S1 = 2\<rparr> =
     Some (snd (rng_next (snd (rng_next (snd (rng_next \<lparr>S0 = 1, S1 = 2\<rparr>))))))"
proof -
  have h: "(0::int) \<le> 3" by simp
  show ?thesis
    using h discard_matches_calls [OF h, of "\<lparr>S0 = 1, S1 = 2\<rparr>"]
    by (simp add: numeral_3_eq_3)
qed

section \<open>Properties of the queues\<close>

subsection \<open>The base class leaves the generation data alone\<close>

text \<open>
  No method of \<open>pairing_queue\<close> writes \<open>time\<close>, \<open>now\<close> or the size of the array.
  For the two loops of \<open>merge_pairs\<close> this is an induction over their unfolding.
\<close>

lemma gen_root_update [simp]: "gen (q\<lparr>root := r\<rparr>) = gen q"
  by (simp add: gen_def)

lemma store_gen:
  "store p f q = Some q' \<Longrightarrow> \<forall>x. time (f x) = time x \<Longrightarrow> gen q' = gen q"
  by (auto simp: store_def gen_def map_update list_update_same_conv split: option.splits if_splits)

lemma merge_roots_unchecked_gen:
  "merge_roots_unchecked dbg a b q = Some (r, q') \<Longrightarrow> gen q' = gen q"
  unfolding merge_roots_unchecked_def
  by (auto simp: Let_def split: Option.bind_splits if_splits dest!: store_gen)

lemma merge_roots_unsafe_gen:
  "merge_roots_unsafe dbg a b q = Some (r, q') \<Longrightarrow> gen q' = gen q"
  unfolding merge_roots_unsafe_def
  by (auto split: Option.bind_splits if_splits dest: merge_roots_unchecked_gen)

lemma merge_roots_gen:
  "merge_roots dbg a b q = Some (r, q') \<Longrightarrow> gen q' = gen q"
  unfolding merge_roots_def
  by (auto split: Option.bind_splits if_splits dest!: merge_roots_unsafe_gen store_gen)

lemma bind_SomeD:
  "(m \<bind> f) = Some y \<Longrightarrow> \<exists>x. m = Some x \<and> f x = Some y"
  by (cases m) auto

lemma merge_pairs_first_gen:
  "merge_pairs_first dbg a r q = Some y \<Longrightarrow> gen (snd y) = gen q"
proof (induction dbg a r q y rule: merge_pairs_first.raw_induct [rotated 1, consumes 1])
  case (1 mpf dbg a r q y)
  have ih: "\<And>a r q y. mpf dbg a r q = Some y \<Longrightarrow> gen (snd y) = gen q"
    by (rule "1.IH")
  from "1.hyps" [unfolded Let_def, THEN bind_SomeD] obtain na where na: "load a q = Some na"
    and body: "(if nxt na \<noteq> None then
         load (nxt na) q \<bind> (\<lambda>nb. merge_roots_unsafe dbg a (nxt na) q \<bind> (\<lambda>(b, q).
           store b (\<lambda>n. n\<lparr>prev := r\<rparr>) q \<bind> (\<lambda>q.
             if nxt nb \<noteq> None then mpf dbg (nxt nb) b q else Some (b, q))))
       else store a (\<lambda>n. n\<lparr>prev := r\<rparr>) q \<bind> (\<lambda>q. Some (a, q))) = Some y"
    by (elim exE conjE)
  show ?case
  proof (cases "nxt na = None")
    case True
    with body have "store a (\<lambda>n. n\<lparr>prev := r\<rparr>) q \<bind> (\<lambda>q. Some (a, q)) = Some y"
      by simp
    from this [THEN bind_SomeD] obtain q1 where "store a (\<lambda>n. n\<lparr>prev := r\<rparr>) q = Some q1" "Some (a, q1) = Some y"
      by (elim exE conjE)
    then show ?thesis by (auto dest!: store_gen)
  next
    case False
    with body have "load (nxt na) q \<bind> (\<lambda>nb. merge_roots_unsafe dbg a (nxt na) q \<bind> (\<lambda>(b, q).
           store b (\<lambda>n. n\<lparr>prev := r\<rparr>) q \<bind> (\<lambda>q.
             if nxt nb \<noteq> None then mpf dbg (nxt nb) b q else Some (b, q)))) = Some y"
      by simp
    from this [THEN bind_SomeD] obtain nb where
      "load (nxt na) q = Some nb" and
      "merge_roots_unsafe dbg a (nxt na) q \<bind> (\<lambda>(b, q).
           store b (\<lambda>n. n\<lparr>prev := r\<rparr>) q \<bind> (\<lambda>q.
             if nxt nb \<noteq> None then mpf dbg (nxt nb) b q else Some (b, q))) = Some y"
      by (elim exE conjE)
    from this(2) [THEN bind_SomeD] obtain bq where
      s1: "merge_roots_unsafe dbg a (nxt na) q = Some bq" and
      s2: "(case bq of (b, q) \<Rightarrow> store b (\<lambda>n. n\<lparr>prev := r\<rparr>) q \<bind> (\<lambda>q.
             if nxt nb \<noteq> None then mpf dbg (nxt nb) b q else Some (b, q))) = Some y"
      by (elim exE conjE)
    obtain b' q1 where bq: "bq = (b', q1)" by (cases bq)
    from s2 have "store b' (\<lambda>n. n\<lparr>prev := r\<rparr>) q1 \<bind> (\<lambda>q.
             if nxt nb \<noteq> None then mpf dbg (nxt nb) b' q else Some (b', q)) = Some y"
      by (simp add: bq)
    from this [THEN bind_SomeD] obtain q2 where
      s3: "store b' (\<lambda>n. n\<lparr>prev := r\<rparr>) q1 = Some q2" and
      s4: "(if nxt nb \<noteq> None then mpf dbg (nxt nb) b' q2 else Some (b', q2)) = Some y"
      by (elim exE conjE)
    from s1 bq have g1: "gen q1 = gen q" by (auto dest: merge_roots_unsafe_gen)
    from s3 have g2: "gen q2 = gen q1" by (auto dest!: store_gen)
    from s4 have "gen (snd y) = gen q2"
      by (cases "nxt nb = None") (auto dest: ih)
    with g1 g2 show ?thesis by simp
  qed
qed

lemma merge_pairs_second_gen:
  "merge_pairs_second dbg a r q = Some y \<Longrightarrow> gen (snd y) = gen q"
proof (induction dbg a r q y rule: merge_pairs_second.raw_induct [rotated 1, consumes 1])
  case (1 mps dbg a r q y)
  have ih: "\<And>a r q y. mps dbg a r q = Some y \<Longrightarrow> gen (snd y) = gen q"
    by (rule "1.IH")
  show ?case
  proof (cases "r = None")
    case True
    with "1.hyps" show ?thesis by auto
  next
    case False
    with "1.hyps" [unfolded Let_def] have
      "load r q \<bind> (\<lambda>nr. merge_roots_unsafe dbg a r q \<bind> (\<lambda>(a, q). mps dbg a (prev nr) q)) = Some y"
      by simp
    from this [THEN bind_SomeD] obtain nr where
      "load r q = Some nr" and
      "merge_roots_unsafe dbg a r q \<bind> (\<lambda>(a, q). mps dbg a (prev nr) q) = Some y"
      by (elim exE conjE)
    from this(2) [THEN bind_SomeD] obtain aq where
      s1: "merge_roots_unsafe dbg a r q = Some aq" and
      s2: "(case aq of (a, q) \<Rightarrow> mps dbg a (prev nr) q) = Some y"
      by (elim exE conjE)
    obtain a' q1 where aq: "aq = (a', q1)" by (cases aq)
    from s1 aq have g1: "gen q1 = gen q" by (auto dest: merge_roots_unsafe_gen)
    from s2 aq have "gen (snd y) = gen q1" by (auto dest: ih)
    with g1 show ?thesis by simp
  qed
qed

lemma merge_pairs_gen:
  "merge_pairs dbg a q = Some (r, q') \<Longrightarrow> gen q' = gen q"
  unfolding merge_pairs_def
  by (auto simp: Let_def split: Option.bind_splits if_splits
      dest!: merge_pairs_first_gen merge_pairs_second_gen)

lemma reset_node_gen:
  "reset_node dbg n q = Some q' \<Longrightarrow> gen q' = gen q"
  unfolding reset_node_def
  by (auto split: Option.bind_splits dest!: store_gen)

lemma reset_node_val_gen:
  "reset_node_val dbg n v q = Some q' \<Longrightarrow> gen q' = gen q"
  unfolding reset_node_val_def
  by (auto split: Option.bind_splits dest!: store_gen reset_node_gen)

lemma reset_each_gen:
  "reset_each dbg is v q = Some q' \<Longrightarrow> gen q' = gen q"
  by (induction "is" arbitrary: q) (auto split: Option.bind_splits dest!: reset_node_val_gen)

lemma reset_fill_gen:
  "reset_fill dbg v q = Some q' \<Longrightarrow> gen q' = gen q"
  unfolding reset_fill_def by (auto dest!: reset_each_gen)

lemma delete_min_gen:
  "delete_min dbg q = Some (b, q') \<Longrightarrow> gen q' = gen q"
  unfolding delete_min_def
  by (auto simp: Let_def split: Option.bind_splits if_splits
      dest!: merge_pairs_gen store_gen reset_node_gen)

lemma pop_min_gen:
  "pop_min dbg k v q = Some (b, k', v', q') \<Longrightarrow> gen q' = gen q"
  unfolding pop_min_def
  by (auto split: Option.bind_splits if_splits dest!: delete_min_gen)

lemma remove_node_gen:
  "remove_node dbg a q = Some q' \<Longrightarrow> gen q' = gen q"
  unfolding remove_node_def
  by (auto simp: Let_def split: Option.bind_splits if_splits dest!: store_gen)

lemma decrease_gen:
  "decrease dbg a q = Some q' \<Longrightarrow> gen q' = gen q"
  unfolding decrease_def
  by (auto split: Option.bind_splits if_splits dest!: remove_node_gen merge_roots_gen)

lemma decrease_value_gen:
  "decrease_value dbg k v q = Some q' \<Longrightarrow> gen q' = gen q"
  unfolding decrease_value_def decrease_value_node_def
  by (auto split: Option.bind_splits dest!: store_gen decrease_gen)

lemma check_decrease_value_node_gen:
  "check_decrease_value_node dbg n v q = Some (b, q') \<Longrightarrow> gen q' = gen q"
  unfolding check_decrease_value_node_def
  by (auto split: Option.bind_splits if_splits dest!: store_gen decrease_gen)

lemma set_value_node_gen:
  "set_value_node dbg n v q = Some q' \<Longrightarrow> gen q' = gen q"
  unfolding set_value_node_def
  by (auto split: Option.bind_splits if_splits
      dest!: store_gen decrease_gen remove_node_gen merge_roots_gen)

lemma set_value_unsafe_node_gen:
  "set_value_unsafe_node dbg n v q = Some q' \<Longrightarrow> gen q' = gen q"
  unfolding set_value_unsafe_node_def by (auto split: Option.bind_splits dest!: store_gen)

lemma gen_ok_alt:
  "gen_ok q =
     ((\<forall>t \<in> set (fst (gen q)).
         (0 < snd (gen q) \<longrightarrow> 0 \<le> t \<and> t \<le> snd (gen q)) \<and>
         (snd (gen q) < 0 \<longrightarrow> 0 \<le> t \<or> t \<le> snd (gen q))) \<and>
      INT_MIN \<le> snd (gen q) \<and> snd (gen q) \<le> INT_MAX)"
  by (simp add: gen_ok_def gen_def)

lemma gen_ok_gen: "gen q' = gen q \<Longrightarrow> gen_ok q \<Longrightarrow> gen_ok q'"
  by (simp add: gen_ok_alt)

subsection \<open>No stamp is ever ahead of the counter\<close>

lemma store_time_gen_ok:
  "store p (\<lambda>x. x\<lparr>time := t\<rparr>) q = Some q' \<Longrightarrow> t = now q \<Longrightarrow> gen_ok q \<Longrightarrow> gen_ok q'"
  by (auto simp: store_def gen_ok_def split: option.splits if_splits dest!: set_update_subset_insert [THEN subsetD])

lemma gen_now: "gen q' = gen q \<Longrightarrow> now q' = now q"
  by (simp add: gen_def)

lemma fr_reset_node_gen_ok:
  assumes "fr_reset_node dbg n q = Some q'" and ok: "gen_ok q"
  shows "gen_ok q'"
proof -
  from assms(1) [unfolded fr_reset_node_def, THEN bind_SomeD] obtain q1 where
    r: "reset_node dbg n q = Some q1" and s: "store n (\<lambda>x. x\<lparr>time := now q1\<rparr>) q1 = Some q'"
    by (elim exE conjE)
  from r have g: "gen q1 = gen q" by (rule reset_node_gen)
  then have "gen_ok q1" using ok by (rule gen_ok_gen)
  from store_time_gen_ok [OF s _ this] show ?thesis by simp
qed

lemma current_gen_ok:
  assumes "current dbg n q = Some (b, q')" and ok: "gen_ok q"
  shows "gen_ok q'"
proof -
  from assms(1) [unfolded current_def, THEN bind_SomeD] obtain x where
    "load n q = Some x" and
    c: "(if time x \<noteq> now q then fr_reset_node dbg n q \<bind> (\<lambda>q. Some (False, q)) else Some (True, q))
          = Some (b, q')"
    by (elim exE conjE)
  show ?thesis
  proof (cases "time x \<noteq> now q")
    case True
    with c have "fr_reset_node dbg n q \<bind> (\<lambda>q. Some (False, q)) = Some (b, q')" by simp
    from this [THEN bind_SomeD] have "fr_reset_node dbg n q = Some q'" by auto
    then show ?thesis using ok by (rule fr_reset_node_gen_ok)
  next
    case False
    with c ok show ?thesis by simp
  qed
qed

lemma int_wrap_id: "INT_MIN \<le> i \<Longrightarrow> i \<le> INT_MAX \<Longrightarrow> int_wrap i = i"
  by (simp add: int_wrap_def INT_MIN_def INT_MAX_def)

lemma int_wrap_max: "int_wrap (INT_MAX + 1) = INT_MIN"
  by (simp add: int_wrap_def INT_MIN_def INT_MAX_def)

lemma int_wrap_range: "INT_MIN \<le> int_wrap i \<and> int_wrap i \<le> INT_MAX"
  by (simp add: int_wrap_def INT_MIN_def INT_MAX_def)

lemma int_wrap_next:
  assumes "INT_MIN \<le> n" and "n \<le> INT_MAX"
  shows "int_wrap (n + 1) = (if n = INT_MAX then INT_MIN else n + 1)"
proof (cases "n = INT_MAX")
  case True
  then show ?thesis by (simp add: int_wrap_max)
next
  case False
  with assms have "INT_MIN \<le> n + 1" and "n + 1 \<le> INT_MAX" by simp_all
  then show ?thesis using False by (simp add: int_wrap_id)
qed

lemma fr_reset_gen:
  "gen (fr_reset q) =
     (if now q = 0 then map (\<lambda>x. 0) (nodes q) else map time (nodes q), int_wrap (now q + 1))"
  by (simp add: fr_reset_def gen_def Let_def comp_def)

lemma fr_reset_gen_ok:
  assumes ok: "gen_ok q"
  shows "gen_ok (fr_reset q)"
proof -
  from ok have range: "INT_MIN \<le> now q" "now q \<le> INT_MAX" by (simp_all add: gen_ok_def)
  note nxt = int_wrap_next [OF range]
  from ok have stamps: "\<forall>t \<in> set (map time (nodes q)).
         (0 < now q \<longrightarrow> 0 \<le> t \<and> t \<le> now q) \<and> (now q < 0 \<longrightarrow> 0 \<le> t \<or> t \<le> now q)"
    by (simp add: gen_ok_def)
  show ?thesis
  proof (cases "now q = 0")
    case True
    then show ?thesis
      by (simp add: gen_ok_alt fr_reset_gen int_wrap_id INT_MIN_def INT_MAX_def)
  next
    case False
    show ?thesis
    proof (cases "now q = INT_MAX")
      case True
      with stamps show ?thesis
        unfolding gen_ok_alt fr_reset_gen nxt
        by (simp add: INT_MIN_def INT_MAX_def)
    next
      case notmax: False
      with stamps False range show ?thesis
        unfolding gen_ok_alt fr_reset_gen nxt
        by (auto simp: INT_MIN_def INT_MAX_def)
    qed
  qed
qed

lemma fr_set_value_gen_ok:
  assumes "fr_set_value dbg k v q = Some q'" and ok: "gen_ok q"
  shows "gen_ok q'"
proof -
  from assms(1) [unfolded fr_set_value_def, THEN bind_SomeD] obtain n where
    "node dbg k q = Some n" and
    "current dbg n q \<bind> (\<lambda>(cur, q). if cur then set_value_node dbg n v q
       else store n (\<lambda>x. x\<lparr>val := v\<rparr>) q \<bind> (\<lambda>q. merge_roots dbg n (root q) q \<bind>
         (\<lambda>(r, q). Some (q\<lparr>root := r\<rparr>)))) = Some q'"
    by (elim exE conjE)
  from this(2) [THEN bind_SomeD] obtain cq where
    c: "current dbg n q = Some cq" and
    r: "(case cq of (cur, q) \<Rightarrow> if cur then set_value_node dbg n v q
       else store n (\<lambda>x. x\<lparr>val := v\<rparr>) q \<bind> (\<lambda>q. merge_roots dbg n (root q) q \<bind>
         (\<lambda>(r, q). Some (q\<lparr>root := r\<rparr>)))) = Some q'"
    by (elim exE conjE)
  obtain cur q1 where cq: "cq = (cur, q1)" by (cases cq)
  from c cq ok have ok1: "gen_ok q1" by (auto dest: current_gen_ok)
  from r cq have "gen q' = gen q1"
    by (auto split: if_splits Option.bind_splits
        dest!: set_value_node_gen store_gen merge_roots_gen)
  then show ?thesis using ok1 by (rule gen_ok_gen)
qed

lemma fr_set_value_unsafe_gen_ok:
  assumes "fr_set_value_unsafe dbg k v q = Some q'" and ok: "gen_ok q"
  shows "gen_ok q'"
proof -
  from assms(1) [unfolded fr_set_value_unsafe_def, THEN bind_SomeD] obtain n where
    "node dbg k q = Some n" and
    "current dbg n q \<bind> (\<lambda>(_, q). set_value_unsafe_node dbg n v q) = Some q'"
    by (elim exE conjE)
  from this(2) [THEN bind_SomeD] obtain cq where
    c: "current dbg n q = Some cq" and
    r: "(case cq of (_, q) \<Rightarrow> set_value_unsafe_node dbg n v q) = Some q'"
    by (elim exE conjE)
  obtain cur q1 where cq: "cq = (cur, q1)" by (cases cq)
  from c cq ok have ok1: "gen_ok q1" by (auto dest: current_gen_ok)
  from r cq have "gen q' = gen q1"
    by (auto dest!: set_value_unsafe_node_gen)
  then show ?thesis using ok1 by (rule gen_ok_gen)
qed

lemma fr_check_decrease_value_gen_ok:
  assumes "fr_check_decrease_value dbg k v q = Some (b, q')" and ok: "gen_ok q"
  shows "gen_ok q'"
proof -
  from assms(1) [unfolded fr_check_decrease_value_def, THEN bind_SomeD] obtain n where
    "node dbg k q = Some n" and
    "current dbg n q \<bind> (\<lambda>(cur, q). if cur then check_decrease_value_node dbg n v q
       else set_value_node dbg n v q \<bind> (\<lambda>q. Some (True, q))) = Some (b, q')"
    by (elim exE conjE)
  from this(2) [THEN bind_SomeD] obtain cq where
    c: "current dbg n q = Some cq" and
    r: "(case cq of (cur, q) \<Rightarrow> if cur then check_decrease_value_node dbg n v q
       else set_value_node dbg n v q \<bind> (\<lambda>q. Some (True, q))) = Some (b, q')"
    by (elim exE conjE)
  obtain cur q1 where cq: "cq = (cur, q1)" by (cases cq)
  from c cq ok have ok1: "gen_ok q1" by (auto dest: current_gen_ok)
  from r cq have "gen q' = gen q1"
    by (auto split: if_splits Option.bind_splits
        dest!: set_value_node_gen check_decrease_value_node_gen)
  then show ?thesis using ok1 by (rule gen_ok_gen)
qed

lemma init_gen_ok:
  "pairing_queue_fast_reset_init n = Some q \<Longrightarrow> gen_ok q"
  by (auto simp: pairing_queue_fast_reset_init_def gen_ok_def INT_MIN_def INT_MAX_def
      split: if_splits)

lemma fr_reachable_gen_ok: "fr_reachable dbg q \<Longrightarrow> gen_ok q"
proof (induction rule: fr_reachable.induct)
  case (init n q)
  then show ?case by (rule init_gen_ok)
next
  case (reset q)
  from reset.IH show ?case by (rule fr_reset_gen_ok)
next
  case (set_value q k v q')
  then show ?case by (auto dest: fr_set_value_gen_ok)
next
  case (set_value_unsafe q k v q')
  then show ?case by (auto dest: fr_set_value_unsafe_gen_ok)
next
  case (check_decrease_value q k v b q')
  then show ?case by (auto dest: fr_check_decrease_value_gen_ok)
next
  case (delete_min q b q')
  then show ?case by (blast intro: gen_ok_gen dest: delete_min_gen)
next
  case (pop_min q k v b k' v' q')
  then show ?case by (blast intro: gen_ok_gen dest: pop_min_gen)
next
  case (decrease_value q k v q')
  then show ?case by (blast intro: gen_ok_gen dest: decrease_value_gen)
next
  case (reset_fill q v q')
  then show ?case by (blast intro: gen_ok_gen dest: reset_fill_gen)
qed

text \<open>
  Unless the counter stands at \<open>-1\<close>, \<open>reset()\<close> leaves every stamp different from
  the new counter, and the queue is empty for all its observers.
\<close>

lemma fr_reset_stale:
  assumes ok: "gen_ok q" and nw: "now q \<noteq> - 1"
  shows "\<forall>x \<in> set (nodes (fr_reset q)). time x \<noteq> now (fr_reset q)"
proof -
  from ok have range: "INT_MIN \<le> now q" "now q \<le> INT_MAX" by (simp_all add: gen_ok_def)
  note nxt = int_wrap_next [OF range]
  from ok have stamps: "\<forall>t \<in> set (map time (nodes q)).
         (0 < now q \<longrightarrow> 0 \<le> t \<and> t \<le> now q) \<and> (now q < 0 \<longrightarrow> 0 \<le> t \<or> t \<le> now q)"
    by (simp add: gen_ok_def)
  have "\<forall>t \<in> set (fst (gen (fr_reset q))). t \<noteq> snd (gen (fr_reset q))"
  proof (cases "now q = 0")
    case True
    then show ?thesis by (simp add: fr_reset_gen int_wrap_id INT_MIN_def INT_MAX_def)
  next
    case False
    with stamps nw range show ?thesis
      unfolding fr_reset_gen nxt
      by (auto simp: INT_MIN_def INT_MAX_def)
  qed
  then show ?thesis by (simp add: gen_def)
qed

lemma fr_reset_result:
  assumes ok: "gen_ok q" and nw: "now q \<noteq> - 1"
  shows "empty_queue (fr_reset q)
           \<and> pop_min dbg key_arg value_arg (fr_reset q) = Some (False, key_arg, value_arg, fr_reset q)
           \<and> (\<forall>k. has k (fr_reset q) \<longrightarrow> get_value dbg max_P k (fr_reset q) = Some max_P)"
proof -
  have root: "root (fr_reset q) = None"
    by (simp add: fr_reset_def Let_def)
  note stale = fr_reset_stale [OF ok nw]
  have "get_value dbg max_P k (fr_reset q) = Some max_P" if "has k (fr_reset q)" for k
    using that stale
    by (auto simp: get_value_def node_def checkbound_def minorminer_assert_def load_def has_def)
  with root show ?thesis
    by (auto simp: empty_queue_def empty_ptr_def pop_min_def)
qed

lemma reset_empties_off_wrap:
  assumes "fr_reachable dbg q" and "now q \<noteq> - 1"
  shows "empty_queue (fr_reset q)
           \<and> pop_min dbg key_arg value_arg (fr_reset q) = Some (False, key_arg, value_arg, fr_reset q)
           \<and> (\<forall>k. has k (fr_reset q) \<longrightarrow> get_value dbg max_P k (fr_reset q) = Some max_P)"
  using fr_reset_result [OF fr_reachable_gen_ok [OF assms(1)] assms(2)] .

text \<open>
  The counter after \<open>m\<close> calls of \<open>reset()\<close> on a fresh queue of one key, for every
  \<open>m\<close> from 1 to \<open>2^32 - 1\<close>: none of these calls sees the counter at 0 but the
  first, so the stamp of the node stays 0.
\<close>

lemma int_wrap_step: "int_wrap (int_wrap i + 1) = int_wrap (i + 1)"
  by (simp add: int_wrap_def mod_simps)

lemma int_wrap_high: "2147483648 \<le> i \<Longrightarrow> i < 4294967296 \<Longrightarrow> int_wrap i = i - 4294967296"
proof -
  assume a: "2147483648 \<le> i" "i < 4294967296"
  have "(i + 2147483648) mod 4294967296 = (i + 2147483648 - 4294967296) mod 4294967296"
    by (rule minus_mod_self2 [symmetric])
  also have "i + 2147483648 - 4294967296 = i - 2147483648" by simp
  also have "(i - 2147483648) mod 4294967296 = i - 2147483648" using a by simp
  finally show ?thesis by (simp add: int_wrap_def)
qed

lemma int_wrap_nonzero: "0 < i \<Longrightarrow> i < 4294967296 \<Longrightarrow> int_wrap i \<noteq> 0"
  by (cases "i \<le> 2147483647") (simp_all add: int_wrap_id INT_MIN_def INT_MAX_def int_wrap_high)

lemma iterate_reset_reachable:
  "fr_reachable dbg (\<lparr>nodes = [\<lparr>val = 0::int, nxt = None, desc = None, prev = None, time = 0\<rparr>],
            root = None, now = int_wrap (int (Suc m))\<rparr>)" if "Suc m < 4294967296"
  using that
proof (induction m)
  case 0
  have "fr_reachable dbg (\<lparr>nodes = [\<lparr>val = 0::int, nxt = None, desc = None, prev = None, time = 0\<rparr>],
            root = None, now = 0\<rparr>)"
    by (rule fr_reachable.init [of 1]) (simp add: pairing_queue_fast_reset_init_def)
  from fr_reachable.reset [OF this] show ?case
    by (simp add: fr_reset_def)
next
  case (Suc m)
  then have nz: "int_wrap (int (Suc m)) \<noteq> 0"
    by (intro int_wrap_nonzero) simp_all
  from Suc have "fr_reachable dbg (\<lparr>nodes = [\<lparr>val = 0::int, nxt = None, desc = None, prev = None, time = 0\<rparr>],
            root = None, now = int_wrap (int (Suc m))\<rparr>)" by simp
  from fr_reachable.reset [OF this] show ?case
    using nz int_wrap_step [of "int (Suc m)"] by (simp add: fr_reset_def Let_def add.commute)
qed

lemma q_wrap_reachable: "fr_reachable dbg q_wrap"
  using iterate_reset_reachable [of 4294967294 dbg] by (simp add: q_wrap_def int_wrap_def)

text \<open>
  Claim C5, on a queue of one key whose only calls are \<open>2^32\<close> calls of \<open>reset()\<close>.
  The claim asks that after each of them \<open>get_value(0)\<close> is \<open>max_P\<close>, here
  \<open>LLONG_MAX\<close>. The state before the last call is reachable, with and without
  assertions; the last call takes the counter from \<open>-1\<close> to 0, the stamp that the node
  has had since it was constructed, and \<open>get_value(0)\<close> is the node's stored value 0.
  \<open>reset()\<close> sets all stamps to 0 where it finds the counter at 0, that is one call
  later: after one more \<open>reset()\<close> the value read is \<open>LLONG_MAX\<close> again.
\<close>

theorem reset_after_wrap_keeps_value:
  "fr_reachable False q_wrap \<and> fr_reachable True q_wrap \<and>
   now (fr_reset q_wrap) = 0 \<and> has 0 (fr_reset q_wrap) \<and>
   get_value False LLONG_MAX 0 (fr_reset q_wrap) = Some 0 \<and>
   get_value True LLONG_MAX 0 (fr_reset q_wrap) = Some 0 \<and>
   get_value False LLONG_MAX 0 (fr_reset (fr_reset q_wrap)) = Some LLONG_MAX"
proof -
  have "now (fr_reset q_wrap) = 0 \<and> has 0 (fr_reset q_wrap) \<and>
   get_value False LLONG_MAX 0 (fr_reset q_wrap) = Some 0 \<and>
   get_value True LLONG_MAX 0 (fr_reset q_wrap) = Some 0 \<and>
   get_value False LLONG_MAX 0 (fr_reset (fr_reset q_wrap)) = Some LLONG_MAX"
    by code_simp
  with q_wrap_reachable [of False] q_wrap_reachable [of True] show ?thesis by simp
qed

subsection \<open>Popping from an empty queue\<close>

text \<open>
  Claim C10. On a queue whose root is null, \<open>delete_min\<close> and \<open>pop_min\<close> return
  false and leave the queue as it is, and \<open>pop_min\<close> leaves its two reference arguments
  as they were. No assertion is involved.
\<close>

theorem empty_pop_is_noop:
  "root q = None \<Longrightarrow>
     delete_min dbg q = Some (False, q) \<and>
     pop_min dbg key_arg value_arg q = Some (False, key_arg, value_arg, q)"
  by (simp add: delete_min_def pop_min_def empty_queue_def empty_ptr_def)

theorem empty_pop_is_noop_witness:
  "root \<lparr>nodes = [\<lparr>val = 4::int, nxt = None, desc = None, prev = Some 0\<rparr>], root = None\<rparr> = None \<and>
   delete_min True \<lparr>nodes = [\<lparr>val = 4::int, nxt = None, desc = None, prev = Some 0\<rparr>], root = None\<rparr> =
     Some (False, \<lparr>nodes = [\<lparr>val = 4::int, nxt = None, desc = None, prev = Some 0\<rparr>], root = None\<rparr>) \<and>
   pop_min True 7 9 \<lparr>nodes = [\<lparr>val = 4::int, nxt = None, desc = None, prev = Some 0\<rparr>], root = None\<rparr> =
     Some (False, 7, 9,
       \<lparr>nodes = [\<lparr>val = 4::int, nxt = None, desc = None, prev = Some 0\<rparr>], root = None\<rparr>)"
proof -
  have h: "root \<lparr>nodes = [\<lparr>val = 4::int, nxt = None, desc = None, prev = Some 0\<rparr>],
      root = None\<rparr> = None"
    by simp
  from empty_pop_is_noop [OF h, of True 7 9] h show ?thesis by simp
qed

subsection \<open>Runs of the code on concrete queues\<close>

text \<open>
  Claim C3, on a queue of two keys after \<open>reset()\<close>: \<open>set_value(0, 5)\<close>,
  \<open>set_value(0, 5)\<close>, \<open>set_value(1, 7)\<close>, then \<open>pop_min\<close> until it returns false.
  The claim asks for the pops (0, 5), (1, 7) and then false. The code, with and without
  assertions, pops (0, 5) twice and then reports an empty queue; the entry (1, 7) is
  never returned. After the first \<open>set_value\<close> node 0 is the root of a one-node heap
  and still has \<open>prev == n\<close>, the mark of a node outside the queue, because
  \<open>merge_roots\<close> returns early on an empty root; the second \<open>set_value\<close> therefore
  merges the root with itself.

  The same happens when the second call is \<open>check_decrease_value(0, 3)\<close>: the default
  build pops (0, 3) twice and loses (1, 7), and the debugging build stops in
  \<open>decrease\<close>, at the assertion that the node is not the root.
\<close>

theorem set_value_twice_loses_entry:
  "do { q \<leftarrow> fresh_plain False 2;
        run_plain False [Set_value 0 5, Set_value 0 5, Set_value 1 7,
                         Pop_min, Pop_min, Pop_min, Empty] q } =
     Some [Done, Done, Done, Popped 0 5, Popped 0 5, Flag False, Flag True] \<and>
   do { q \<leftarrow> fresh_plain True 2;
        run_plain True [Set_value 0 5, Set_value 0 5, Set_value 1 7,
                        Pop_min, Pop_min, Pop_min, Empty] q } =
     Some [Done, Done, Done, Popped 0 5, Popped 0 5, Flag False, Flag True] \<and>
   do { q \<leftarrow> fresh_plain False 2;
        run_plain False [Set_value 0 5, Check_decrease_value 0 3, Set_value 1 7,
                         Pop_min, Pop_min, Pop_min, Empty] q } =
     Some [Done, Flag True, Done, Popped 0 3, Popped 0 3, Flag False, Flag True] \<and>
   do { q \<leftarrow> fresh_plain True 2;
        run_plain True [Set_value 0 5, Check_decrease_value 0 3] q } = None"
  by code_simp

text \<open>
  Claim C4, on a one-key \<open>pairing_queue_fast_reset\<close> after \<open>reset()\<close>: key 0 is stale,
  \<open>get_value(0)\<close> is \<open>max_P\<close>, and \<open>max_P\<close> is not strictly smaller than that. The
  claim asks \<open>check_decrease_value(0, max_P)\<close> to return false and leave the queue
  unchanged. The code, with and without assertions, returns true and inserts key 0: the
  queue is no longer empty.
\<close>

theorem stale_check_decrease_inserts:
  "do { q \<leftarrow> fresh_fast 1;
        v \<leftarrow> get_value False LLONG_MAX 0 q;
        (b, q') \<leftarrow> fr_check_decrease_value False 0 LLONG_MAX q;
        Some (v, LLONG_MAX < v, b, empty_queue q, empty_queue q', root q') } =
     Some (LLONG_MAX, False, True, True, False, Some 0) \<and>
   do { q \<leftarrow> fresh_fast 1;
        v \<leftarrow> get_value True LLONG_MAX 0 q;
        (b, q') \<leftarrow> fr_check_decrease_value True 0 LLONG_MAX q;
        Some (v, LLONG_MAX < v, b, empty_queue q, empty_queue q', root q') } =
     Some (LLONG_MAX, False, True, True, False, Some 0)"
  by code_simp

text \<open>
  Claim C6, on one-key queues after \<open>reset()\<close>: the calls
  \<open>check_decrease_value(0, max_P)\<close> and \<open>empty()\<close>. The plain queue answers false and
  true, the fast-reset queue true and false, with and without assertions.
\<close>

theorem variants_differ_at_max:
  "do { q \<leftarrow> fresh_plain False 1;
        run_plain False [Check_decrease_value 0 LLONG_MAX, Empty] q } =
     Some [Flag False, Flag True] \<and>
   do { q \<leftarrow> fresh_fast 1;
        run_fast False [Check_decrease_value 0 LLONG_MAX, Empty] q } =
     Some [Flag True, Flag False] \<and>
   do { q \<leftarrow> fresh_plain True 1;
        run_plain True [Check_decrease_value 0 LLONG_MAX, Empty] q } =
     Some [Flag False, Flag True] \<and>
   do { q \<leftarrow> fresh_fast 1;
        run_fast True [Check_decrease_value 0 LLONG_MAX, Empty] q } =
     Some [Flag True, Flag False]"
  by code_simp

section \<open>Properties of the Python front end\<close>

subsection \<open>The histogram that histogram_key_body computes\<close>

lemma map_of_dict_set: "map_of (dict_set k v d) = (map_of d)(k \<mapsto> v)"
  by (induction d) (auto simp: fun_eq_iff)

lemma keys_dict_set: "fst ` set (dict_set k v d) = insert k (fst ` set d)"
  by (simp add: dom_map_of_conv_image_fst [symmetric] map_of_dict_set)

lemma distinct_dict_set:
  "distinct (map fst d) \<Longrightarrow> distinct (map fst (dict_set k v d))"
  by (induction d) (auto simp: keys_dict_set)

lemma dict_get_map_of: "dict_get d k dflt = (case map_of d k of Some v \<Rightarrow> v | None \<Rightarrow> dflt)"
  by (simp add: dict_get_def)

lemma tally_invariant:
  "distinct (map fst (foldl tally [] xs)) \<and>
   map_of (foldl tally [] xs) =
     (\<lambda>k. if k \<in> set xs \<and> k \<noteq> 0 then Some (int (count_list xs k)) else None)"
proof (induction xs rule: rev_induct)
  case Nil
  show ?case by (simp add: fun_eq_iff)
next
  case (snoc x xs)
  then show ?case
    by (auto simp: tally_def distinct_dict_set map_of_dict_set dict_get_map_of fun_eq_iff)
qed

lemma sort_assoc:
  fixes h :: "(int \<times> int) list"
  assumes "distinct (map fst h)"
  shows "sort h = map (\<lambda>k. (k, the (map_of h k))) (sorted_list_of_set (fst ` set h))"
proof (rule sorted_distinct_set_unique)
  show "sorted (sort h)" by simp
  from assms have "distinct h" by (simp add: distinct_map)
  then show "distinct (sort h)" by simp
  have "sorted_wrt (<) (sorted_list_of_set (fst ` set h))"
    by (simp add: strict_sorted_iff)
  then have "sorted_wrt (\<lambda>x y. (x, the (map_of h x)) \<le> (y, the (map_of h y)))
      (sorted_list_of_set (fst ` set h))"
    by (rule sorted_wrt_mono_rel [rotated]) simp
  then show "sorted (map (\<lambda>k. (k, the (map_of h k))) (sorted_list_of_set (fst ` set h)))"
    by (simp add: sorted_map)
  show "distinct (map (\<lambda>k. (k, the (map_of h k))) (sorted_list_of_set (fst ` set h)))"
    by (simp add: distinct_map inj_on_def)
  show "set (sort h) = set (map (\<lambda>k. (k, the (map_of h k))) (sorted_list_of_set (fst ` set h)))"
    using assms by (auto simp: image_iff) (metis fst_conv map_of_eq_Some_iff option.sel prod.collapse)+
qed

lemma histogram_key_body_eq:
  "histogram_key_body sizes = histogram (filter (\<lambda>s. s \<noteq> 0) sizes)"
proof -
  let ?h = "foldl tally [] sizes"
  have d: "distinct (map fst ?h)" and
       m: "map_of ?h = (\<lambda>k. if k \<in> set sizes \<and> k \<noteq> 0 then Some (int (count_list sizes k)) else None)"
    using tally_invariant [of sizes] by simp_all
  have keys: "fst ` set ?h = set (filter (\<lambda>s. s \<noteq> 0) sizes)"
    using m by (auto simp: set_eq_iff image_iff dom_map_of_conv_image_fst [symmetric] dom_def
        split: if_splits)
  have cnt: "count_list (filter (\<lambda>s. s \<noteq> 0) sizes) k = count_list sizes k" if "k \<noteq> 0" for k
    using that by (induction sizes) auto
  have "histogram_key_body sizes = concat (map (\<lambda>t. [fst t, snd t]) (rev (sort ?h)))"
    by (simp add: histogram_key_body_def tally_def [abs_def])
  also have "\<dots> = concat (map (\<lambda>v. [v, the (map_of ?h v)])
        (rev (sorted_list_of_set (set (filter (\<lambda>s. s \<noteq> 0) sizes)))))"
    by (simp add: sort_assoc [OF d] keys rev_map o_def)
  also have "\<dots> = histogram (filter (\<lambda>s. s \<noteq> 0) sizes)"
    unfolding histogram_def
    by (rule arg_cong [where f = concat], rule map_cong) (auto simp: m cnt)
  finally show ?thesis .
qed

lemma foldl_concat: "foldl f a (concat xss) = foldl (foldl f) a xss"
  by (induction xss arbitrary: a) simp_all

lemma bump_invariant:
  "distinct (map fst (foldl bump [] xs)) \<and>
   map_of (foldl bump [] xs) =
     (\<lambda>q. if q \<in> set xs then Some (int (count_list xs q) - 1) else None)"
proof (induction xs rule: rev_induct)
  case Nil
  show ?case by (simp add: fun_eq_iff)
next
  case (snoc x xs)
  then show ?case
    by (auto simp: bump_def distinct_dict_set map_of_dict_set dict_get_map_of fun_eq_iff)
qed

lemma count_overlaps_body_foldl: "count_overlaps_body chns = foldl bump [] (concat chns)"
  by (simp add: count_overlaps_body_def foldl_concat bump_def [abs_def])

lemma map_snd_assoc:
  "distinct (map fst d) \<Longrightarrow> map snd d = map (\<lambda>k. the (map_of d k)) (map fst d)"
proof (induction d)
  case Nil
  show ?case by simp
next
  case (Cons p d)
  obtain k v where p: "p = (k, v)" by (cases p)
  from Cons.prems p have nk: "k \<notin> fst ` set d" and dd: "distinct (map fst d)"
    by auto
  have "map (\<lambda>x. the (map_of (p # d) x)) (map fst d) = map (\<lambda>x. the (map_of d x)) (map fst d)"
    using nk by (intro map_cong refl) (auto simp: p)
  with Cons.IH [OF dd] show ?case by (simp add: p)
qed

lemma count_list_map_distinct:
  "distinct ks \<Longrightarrow> count_list (map f ks) c = card {k \<in> set ks. f k = c}"
proof (induction ks)
  case Nil
  show ?case by simp
next
  case (Cons k ks)
  have eq: "{x. (x = k \<or> x \<in> set ks) \<and> f x = c} =
      (if f k = c then insert k {x \<in> set ks. f x = c} else {x \<in> set ks. f x = c})"
    by auto
  from Cons show ?case by (simp add: eq)
qed

lemma count_list_filter:
  "count_list (filter P xs) v = (if P v then count_list xs v else 0)"
  by (induction xs) auto

lemma histogram_cong:
  assumes "\<And>v. count_list xs v = count_list ys v"
  shows "histogram xs = histogram ys"
proof -
  have "x \<in> set xs \<longleftrightarrow> x \<in> set ys" for x
    using assms [of x] count_list_0_iff [of xs x] count_list_0_iff [of ys x] by simp
  then have "set xs = set ys" by blast
  with assms show ?thesis by (simp add: histogram_def)
qed

lemma overlap_histogram:
  "histogram_key_body (map snd (count_overlaps_body chns)) =
     histogram (filter (\<lambda>s. s \<noteq> 0) (overlap_counts chns))"
proof -
  let ?xs = "concat chns"
  let ?ov = "foldl bump [] ?xs"
  let ?f = "\<lambda>q. int (count_list ?xs q) - 1"
  have d: "distinct (map fst ?ov)" and
       m: "map_of ?ov = (\<lambda>q. if q \<in> set ?xs then Some (?f q) else None)"
    using bump_invariant [of ?xs] by simp_all
  have keys: "set (map fst ?ov) = set ?xs"
    using m by (auto simp: set_eq_iff image_iff dom_map_of_conv_image_fst [symmetric] dom_def
        split: if_splits)
  have "map snd ?ov = map (\<lambda>k. the (map_of ?ov k)) (map fst ?ov)"
    using d by (rule map_snd_assoc)
  also have "\<dots> = map ?f (map fst ?ov)"
    using keys by (intro map_cong refl) (simp add: m)
  finally have s: "map snd ?ov = map ?f (map fst ?ov)" .
  have "count_list (map snd ?ov) c = count_list (overlap_counts chns) c" for c
  proof -
    have "count_list (map ?f (map fst ?ov)) c = card {k \<in> set (map fst ?ov). ?f k = c}"
      using d by (rule count_list_map_distinct)
    also have "\<dots> = card {k \<in> set (remdups ?xs). ?f k = c}"
      by (simp only: keys set_remdups)
    also have "\<dots> = count_list (map ?f (remdups ?xs)) c"
      by (rule count_list_map_distinct [symmetric]) simp
    finally show ?thesis
      by (simp only: s overlap_counts_def)
  qed
  then have "histogram (filter (\<lambda>s. s \<noteq> 0) (map snd ?ov)) =
      histogram (filter (\<lambda>s. s \<noteq> 0) (overlap_counts chns))"
    by (intro histogram_cong) (simp add: count_list_filter)
  then show ?thesis
    by (simp add: histogram_key_body_eq count_overlaps_body_foldl)
qed

lemma histogram_Nil_iff: "histogram xs = [] \<longleftrightarrow> xs = []"
  by (auto simp: histogram_def)

lemma distinct_count_list: "distinct xs \<longleftrightarrow> (\<forall>x \<in> set xs. count_list xs x = 1)"
proof (induction xs)
  case Nil
  show ?case by simp
next
  case (Cons a xs)
  show ?case
  proof (cases "a \<in> set xs")
    case True
    then have "count_list xs a \<noteq> 0" by (simp add: count_list_0_iff)
    with True show ?thesis by auto
  next
    case False
    then have "count_list xs a = 0" by (simp add: count_list_0_iff)
    with False Cons show ?thesis by auto
  qed
qed

lemma overlaps_empty_iff:
  "filter (\<lambda>s. s \<noteq> 0) (overlap_counts chns) = [] \<longleftrightarrow> distinct (concat chns)"
proof -
  have "filter (\<lambda>s. s \<noteq> 0) (overlap_counts chns) = [] \<longleftrightarrow>
      (\<forall>q \<in> set (concat chns). int (count_list (concat chns) q) - 1 = 0)"
    by (simp add: overlap_counts_def filter_empty_conv)
  also have "\<dots> \<longleftrightarrow> (\<forall>q \<in> set (concat chns). count_list (concat chns) q = 1)"
    by (intro ball_cong refl) linarith
  finally show ?thesis by (simp only: distinct_count_list)
qed

subsection \<open>The quality key\<close>

lemma iter_dict_values: "iter (dict_values py3 d) = map snd d"
  by (simp add: dict_values_def)

lemma quality_key_list:
  assumes "embedded \<or> \<not> py3"
  shows "quality_key py3 emb embedded = Inr (quality_spec emb embedded)"
proof (cases "emb = []")
  case True
  then show ?thesis by (simp add: quality_key_def quality_spec_def)
next
  case False
  have L: "histogram_key (PyList (map (\<lambda>c. int (length c)) (iter (dict_values py3 emb)))) =
      Inr (histogram (filter (\<lambda>s. s \<noteq> 0) (map (\<lambda>c. int (length c)) (map snd emb))))"
    by (simp add: histogram_key_def ebind_def iter_dict_values histogram_key_body_eq)
  show ?thesis
  proof (cases embedded)
    case True
    with False show ?thesis
      unfolding quality_key_def quality_spec_def Let_def L
      by (simp add: ebind_def)
  next
    case notemb: False
    with assms have py: "\<not> py3" by simp
    have c: "count_overlaps (dict_values py3 emb) = Inr (count_overlaps_body (map snd emb))"
      using py by (simp add: count_overlaps_def dict_values_def ebind_def)
    have Ov: "histogram_key (dict_values py3 (count_overlaps_body (map snd emb))) =
        Inr (histogram (filter (\<lambda>s. s \<noteq> 0) (overlap_counts (map snd emb))))"
      using py
      by (simp add: histogram_key_def dict_values_def ebind_def
          overlap_histogram [unfolded histogram_key_body_eq] histogram_key_body_eq)
    from False notemb show ?thesis
      unfolding quality_key_def quality_spec_def Let_def L c
      by (simp add: ebind_def Ov)
  qed
qed

text \<open>
  Under Python 3 a call with \<open>embedded\<close> false gets no further than
  \<open>count_overlaps\<close>, which is handed a view of the dictionary where it takes a list.
\<close>

lemma quality_key_view_type_error:
  "emb \<noteq> [] \<Longrightarrow> quality_key True emb False = Inl TypeError"
  by (simp add: quality_key_def Let_def ebind_def histogram_key_def count_overlaps_def
      dict_values_def)

lemma quality_key_returns:
  assumes "quality_key py3 emb embedded = Inr r"
  shows "r = quality_spec emb embedded"
proof (cases "embedded \<or> \<not> py3")
  case True
  from quality_key_list [OF this, of emb] assms show ?thesis by simp
next
  case False
  then have py: "py3" and ne: "\<not> embedded" by simp_all
  show ?thesis
  proof (cases "emb = []")
    case True
    with assms show ?thesis by (simp add: quality_key_def quality_spec_def)
  next
    case False
    from quality_key_view_type_error [OF this] assms py ne show ?thesis by simp
  qed
qed

lemma state_of_quality_spec:
  "emb \<noteq> [] \<Longrightarrow> quality_spec emb embedded =
     Quality3 (if embedded \<or> distinct (concat (map snd emb)) then 0 else 1)
       (if embedded then []
        else histogram (filter (\<lambda>s. s \<noteq> 0) (overlap_counts (map snd emb))))
       (histogram (filter (\<lambda>s. s \<noteq> 0) (map (\<lambda>c. int (length c)) (map snd emb))))"
  by (simp add: quality_spec_def Let_def histogram_Nil_iff overlaps_empty_iff)

text \<open>
  Claim C7, as amended. Whenever \<open>quality_key(emb, embedded)\<close> returns a key, the key
  is \<open>(2,)\<close> for the empty embedding and otherwise \<open>(state, O, L)\<close>, where \<open>L\<close> is the
  histogram of the nonzero chain lengths (empty chains are left out, as zero overlap
  counts are), \<open>O\<close> is the histogram of the nonzero overlap counts, or empty when
  \<open>embedded\<close> is true, and \<open>state\<close> is 1 if \<open>O\<close> is nonempty and 0 otherwise;
  histograms are (value, count) pairs by value descending, flattened. The call does
  return a key when \<open>embedded\<close> is true, when \<open>values()\<close> of a dictionary is a list,
  and for the empty embedding. Compared as Python tuples, the returned key of a nonempty
  embedding without overlaps is below the key of the empty embedding and below the
  returned key of a nonempty embedding with overlaps, which is below the key of the
  empty embedding too.
\<close>

theorem quality_key_histograms:
  "(quality_key py3 emb embedded = Inr r \<longrightarrow> r = quality_spec emb embedded) \<and>
   (embedded \<or> \<not> py3 \<longrightarrow> quality_key py3 emb embedded = Inr (quality_spec emb embedded)) \<and>
   quality_key py3 [] embedded = Inr (Quality1 2) \<and>
   (emb1 \<noteq> [] \<longrightarrow> distinct (concat (map snd emb1)) \<longrightarrow>
      quality_key py3 emb1 embedded1 = Inr r1 \<longrightarrow>
        quality_less r1 (Quality1 2) \<and>
        (emb2 \<noteq> [] \<longrightarrow> \<not> distinct (concat (map snd emb2)) \<longrightarrow>
           quality_key py3 emb2 False = Inr r2 \<longrightarrow>
             quality_less r1 r2 \<and> quality_less r2 (Quality1 2)))"
proof (intro conjI impI)
  assume "quality_key py3 emb embedded = Inr r"
  then show "r = quality_spec emb embedded" by (rule quality_key_returns)
next
  assume "embedded \<or> \<not> py3"
  then show "quality_key py3 emb embedded = Inr (quality_spec emb embedded)"
    by (rule quality_key_list)
next
  show "quality_key py3 [] embedded = Inr (Quality1 2)"
    by (simp add: quality_key_def)
next
  assume ne: "emb1 \<noteq> []" and d: "distinct (concat (map snd emb1))"
    and k: "quality_key py3 emb1 embedded1 = Inr r1"
  from k have "r1 = quality_spec emb1 embedded1" by (rule quality_key_returns)
  with ne d show "quality_less r1 (Quality1 2)"
    by (simp add: state_of_quality_spec)
next
  assume ne1: "emb1 \<noteq> []" and d1: "distinct (concat (map snd emb1))"
    and k1: "quality_key py3 emb1 embedded1 = Inr r1"
    and ne2: "emb2 \<noteq> []" and d2: "\<not> distinct (concat (map snd emb2))"
    and k2: "quality_key py3 emb2 False = Inr r2"
  from k1 have "r1 = quality_spec emb1 embedded1" by (rule quality_key_returns)
  moreover from k2 have "r2 = quality_spec emb2 False" by (rule quality_key_returns)
  ultimately show "quality_less r1 r2"
    using ne1 d1 ne2 d2 by (simp add: state_of_quality_spec)
next
  assume ne: "emb2 \<noteq> []" and d: "\<not> distinct (concat (map snd emb2))"
    and k: "quality_key py3 emb2 False = Inr r2"
  from k have "r2 = quality_spec emb2 False" by (rule quality_key_returns)
  with ne d show "quality_less r2 (Quality1 2)"
    by (simp add: state_of_quality_spec)
qed

text \<open>
  The amended claim at two embeddings: one with chains [1, 2] and [3], one with chains
  [1, 2], [2, 3, 4] and an empty chain, which share target node 2. The first is keyed
  under Python 3 with \<open>embedded\<close> true, and both are keyed where \<open>values()\<close> is a list.
\<close>

theorem quality_key_histograms_witness:
  "quality_key True [(''a'', [1::int, 2]), (''b'', [3])] True = Inr (Quality3 0 [] [2, 1, 1, 1]) \<and>
   quality_spec [(''a'', [1::int, 2]), (''b'', [3])] True = Quality3 0 [] [2, 1, 1, 1] \<and>
   quality_key False [(''a'', [1::int, 2]), (''b'', [2, 3, 4]), (''c'', [])] False = Inr (Quality3 1 [1, 1] [3, 1, 2, 1]) \<and>
   quality_spec [(''a'', [1::int, 2]), (''b'', [2, 3, 4]), (''c'', [])] False = Quality3 1 [1, 1] [3, 1, 2, 1] \<and>
   quality_key False ([] :: (string \<times> int list) list) False = Inr (Quality1 2) \<and>
   [(''a'', [1::int, 2]), (''b'', [3])] \<noteq> [] \<and> [(''a'', [1::int, 2]), (''b'', [2, 3, 4]), (''c'', [])] \<noteq> [] \<and>
   distinct (concat (map snd [(''a'', [1::int, 2]), (''b'', [3])])) \<and>
   \<not> distinct (concat (map snd [(''a'', [1::int, 2]), (''b'', [2, 3, 4]), (''c'', [])])) \<and>
   quality_key False [(''a'', [1::int, 2]), (''b'', [3])] False = Inr (Quality3 0 [] [2, 1, 1, 1]) \<and>
   quality_less (Quality3 0 [] [2, 1, 1, 1]) (Quality1 2) \<and>
   quality_less (Quality3 0 [] [2, 1, 1, 1]) (Quality3 1 [1, 1] [3, 1, 2, 1]) \<and>
   quality_less (Quality3 1 [1, 1] [3, 1, 2, 1]) (Quality1 2)"
proof -
  have a: "quality_key True [(''a'', [1::int, 2]), (''b'', [3])] True = Inr (Quality3 0 [] [2, 1, 1, 1])"
    by code_simp
  have b: "quality_key False [(''a'', [1::int, 2]), (''b'', [3])] False = Inr (Quality3 0 [] [2, 1, 1, 1])"
    by code_simp
  have c: "quality_key False [(''a'', [1::int, 2]), (''b'', [2, 3, 4]), (''c'', [])] False = Inr (Quality3 1 [1, 1] [3, 1, 2, 1])"
    by code_simp
  have d: "quality_spec [(''a'', [1::int, 2]), (''b'', [3])] True = Quality3 0 [] [2, 1, 1, 1]"
    by code_simp
  have e: "quality_spec [(''a'', [1::int, 2]), (''b'', [2, 3, 4]), (''c'', [])] False =
      Quality3 1 [1, 1] [3, 1, 2, 1]"
    by code_simp
  from quality_key_histograms [of True "[(''a'', [1::int, 2]), (''b'', [3])]" True "Quality3 0 [] [2, 1, 1, 1]"]
    quality_key_histograms [of False "[(''a'', [1::int, 2]), (''b'', [2, 3, 4]), (''c'', [])]" False "Quality3 1 [1, 1] [3, 1, 2, 1]"
      "[(''a'', [1::int, 2]), (''b'', [3])]" False "Quality3 0 [] [2, 1, 1, 1]" "[(''a'', [1::int, 2]), (''b'', [2, 3, 4]), (''c'', [])]" "Quality3 1 [1, 1] [3, 1, 2, 1]"]
  show ?thesis by (simp add: a b c d e)
qed

text \<open>
  Claim C7 as stated fails on an embedding with an empty chain, under either
  interpreter: for the embedding that maps \<open>a\<close> to the empty chain the code returns
  \<open>(0, [], [])\<close>, while the histogram of the chain lengths is \<open>[0, 1]\<close>.
\<close>

theorem quality_key_empty_chain_counterexample:
  "quality_key True [(''a'', [] :: int list)] True = Inr (Quality3 0 [] []) \<and>
   quality_key False [(''a'', [] :: int list)] True = Inr (Quality3 0 [] []) \<and>
   quality_key False [(''a'', [] :: int list)] False = Inr (Quality3 0 [] []) \<and>
   quality_claimed [(''a'', [] :: int list)] True = Quality3 0 [] [0, 1] \<and>
   quality_claimed [(''a'', [] :: int list)] False = Quality3 0 [] [0, 1]"
  by code_simp

subsection \<open>Pins in the returned mapping\<close>

text \<open>
  Claim C1, on the call with source edge (a, b), target edge (0, 1) and
  \<open>suspend_chains = {a: [[0]]}\<close>, which creates one pin, and a heuristic that succeeds
  with the chains [0], [1] and the pin's fixed chain. The claim asks for a mapping with
  the keys a and b only. The code returns a third entry whose key is the pin label: the
  loop runs over \<open>range(nc - _in.pincount)\<close>, and the attribute \<open>pincount\<close> is still
  zero, the pins having been counted in a local variable of \<open>__init__\<close>.
\<close>

theorem pins_in_returned_mapping:
  "find_embedding pin_env [(LStr ''a'', LStr ''b'')] [(LInt 0, LInt 1)]
     [(''suspend_chains'', PBlobs [(LStr ''a'', [[LInt 0]])])] =
   Inr (Mapping
     [(LStr ''a'', [LInt 0]),
      (LStr ''b'', [LInt 1]),
      (pin_label (LStr ''a'') 0, [pin_label (LStr ''a'') 0])])"
  by code_simp

subsection \<open>Unknown options\<close>

lemma check_names_bad:
  "name \<in> set ks \<Longrightarrow> name \<notin> set names \<Longrightarrow>
     \<exists>bad. bad \<in> set ks \<and> bad \<notin> set names \<and>
       check_names ks = Inl (ValueError (bad @ '' is not a valid parameter for find_embedding''))"
  by (induction ks) auto

text \<open>
  Claim C2. If \<open>params\<close> has a key outside the recognised names, \<open>find_embedding\<close>
  raises \<open>ValueError\<close> naming such a key, whatever the graphs, the other options and
  their values, the random source and the heuristic are: the result does not depend on
  them, the check being the first thing the parser does.
\<close>

theorem unknown_option_raises_first:
  "name \<in> set (map fst ps) \<Longrightarrow> name \<notin> set names \<Longrightarrow>
     \<exists>bad. bad \<in> set (map fst ps) \<and> bad \<notin> set names \<and>
       find_embedding env S T ps =
         Inl (ValueError (bad @ '' is not a valid parameter for find_embedding''))"
proof -
  assume "name \<in> set (map fst ps)" "name \<notin> set names"
  from check_names_bad [OF this] obtain bad where
    "bad \<in> set (map fst ps)" "bad \<notin> set names"
    "check_names (map fst ps) =
       Inl (ValueError (bad @ '' is not a valid parameter for find_embedding''))"
    by blast
  then show ?thesis
    by (auto simp: find_embedding_def input_parser_init_def ebind_def Let_def)
qed

text \<open>
  The claim at a call with a misspelt \<open>max_fill\<close>, after a \<open>tries\<close> whose value is not
  a number: the error is the one of the unknown name.
\<close>

theorem unknown_option_raises_first_witness:
  "''max_fil'' \<in> set (map fst [(''tries'', PChains []), (''max_fil'', PInt 3)]) \<and>
   ''max_fil'' \<notin> set names \<and>
   find_embedding pin_env [(LStr ''a'', LStr ''b'')] [(LInt 0, LInt 1)]
     [(''tries'', PChains []), (''max_fil'', PInt 3)] =
   Inl (ValueError ''max_fil is not a valid parameter for find_embedding'')"
proof -
  have n: "''max_fil'' \<notin> set names" by (simp add: names_def)
  have m: "''max_fil'' \<in> set (map fst [(''tries'', PChains []), (''max_fil'', PInt 3)])" by simp
  have t: "''tries'' \<in> set names" by (simp add: names_def)
  from unknown_option_raises_first [OF m n, of pin_env "[(LStr ''a'', LStr ''b'')]" "[(LInt 0, LInt 1)]"]
  show ?thesis using t n by auto
qed

end
